theory Spec2Isabelle
  imports Main
begin

section \<open>Python strings\<close>

text \<open>
  A Python \<^verbatim>\<open>str\<close> is a sequence of Unicode code points, so a string is a list of
  natural numbers; \<open>ustr\<close> turns an ASCII literal into one.  The functions below are the
  \<^verbatim>\<open>str\<close> methods that \<^verbatim>\<open>ad_verifier_gemini.py\<close> calls.
\<close>

type_synonym ustring = "nat list"

definition ustr :: "string \<Rightarrow> ustring" where
  "ustr s = map of_char s"

text \<open>\<^verbatim>\<open>str.isspace\<close> on one code point: the characters \<^verbatim>\<open>str.strip()\<close> removes.\<close>

definition is_space :: "nat \<Rightarrow> bool" where
  "is_space c \<longleftrightarrow>
     (9 \<le> c \<and> c \<le> 13) \<or> (28 \<le> c \<and> c \<le> 32) \<or> c = 133 \<or> c = 160 \<or> c = 5760 \<or>
     (8192 \<le> c \<and> c \<le> 8202) \<or> c = 8232 \<or> c = 8233 \<or> c = 8239 \<or> c = 8287 \<or> c = 12288"

text \<open>The line boundaries of \<^verbatim>\<open>str.splitlines()\<close>; CR LF together is one boundary.\<close>

definition is_linebreak :: "nat \<Rightarrow> bool" where
  "is_linebreak c \<longleftrightarrow>
     (10 \<le> c \<and> c \<le> 13) \<or> (28 \<le> c \<and> c \<le> 30) \<or> c = 133 \<or> c = 8232 \<or> c = 8233"

definition strip :: "ustring \<Rightarrow> ustring" where
  "strip s = rev (dropWhile is_space (rev (dropWhile is_space s)))"

definition startswith :: "ustring \<Rightarrow> ustring \<Rightarrow> bool" where
  "startswith s p \<longleftrightarrow> take (length p) s = p"

text \<open>\<^verbatim>\<open>p in s\<close> for strings: \<open>p\<close> occurs in \<open>s\<close> as a contiguous run.\<close>

fun contains :: "ustring \<Rightarrow> ustring \<Rightarrow> bool" where
  "contains [] p = (p = [])"
| "contains (c # cs) p = (startswith (c # cs) p \<or> contains cs p)"

fun splitlines_from :: "ustring \<Rightarrow> ustring \<Rightarrow> ustring list" where
  "splitlines_from cur [] = (if cur = [] then [] else [cur])"
| "splitlines_from cur (c # cs) =
     (if c = 13 \<and> startswith cs [10] then cur # splitlines_from [] (tl cs)
      else if is_linebreak c then cur # splitlines_from [] cs
      else splitlines_from (cur @ [c]) cs)"

definition splitlines :: "ustring \<Rightarrow> ustring list" where
  "splitlines s = splitlines_from [] s"

text \<open>
  \<^verbatim>\<open>s.split(sep)\<close> for a non-empty separator, scanning left to right without overlap.
  (Python raises on an empty separator; the program only passes the literals of two
  blanks and of three backticks.)
\<close>

function split_from :: "ustring \<Rightarrow> ustring \<Rightarrow> ustring \<Rightarrow> ustring list" where
  "split_from sep cur [] = [cur]"
| "split_from sep cur (c # cs) =
     (if startswith (c # cs) sep then cur # split_from sep [] (drop (length sep - 1) cs)
      else split_from sep (cur @ [c]) cs)"
  by pat_completeness auto
termination
  by (relation "measure (\<lambda>(sep, cur, s). length s)") auto

definition split :: "ustring \<Rightarrow> ustring \<Rightarrow> ustring list" where
  "split s sep = split_from sep [] s"

fun join :: "ustring \<Rightarrow> ustring list \<Rightarrow> ustring" where
  "join sep [] = []"
| "join sep [x] = x"
| "join sep (x # y # ys) = x @ sep @ join sep (y # ys)"

text \<open>\<^verbatim>\<open>str(n)\<close> for a non-negative integer.\<close>

fun str_nat :: "nat \<Rightarrow> ustring" where
  "str_nat n = (if n < 10 then [48 + n] else str_nat (n div 10) @ [48 + n mod 10])"

declare str_nat.simps [simp del]

section \<open>The Extractor\<close>

subsection \<open>What the libraries hand to the program\<close>

text \<open>
  \<^verbatim>\<open>requests.get\<close> either raises (the payload is \<^verbatim>\<open>str(e)\<close>) or returns a response.
\<close>

record response =
  status_code :: nat
  reason :: ustring
  url :: ustring
  resp_text :: ustring

text \<open>
  \<^verbatim>\<open>Response.raise_for_status()\<close> of the requests library: an \<^verbatim>\<open>HTTPError\<close> with this
  message for a status in 400..599, and nothing otherwise.  \<open>Some msg\<close> is the raise.
\<close>

definition raise_for_status :: "response \<Rightarrow> ustring option" where
  "raise_for_status r =
     (if 400 \<le> status_code r \<and> status_code r < 500 then
        Some (str_nat (status_code r) @ ustr '' Client Error: '' @ reason r @
              ustr '' for url: '' @ url r)
      else if 500 \<le> status_code r \<and> status_code r < 600 then
        Some (str_nat (status_code r) @ ustr '' Server Error: '' @ reason r @
              ustr '' for url: '' @ url r)
      else None)"

text \<open>
  The tree that \<^verbatim>\<open>BeautifulSoup(markup, 'html.parser')\<close> builds: a tag with its name and
  children, a string that \<^verbatim>\<open>get_text()\<close> returns (\<^verbatim>\<open>NavigableString\<close>, \<^verbatim>\<open>CData\<close>), or
  a string it skips (comment, doctype, declaration, processing instruction).
\<close>

datatype node =
    Tag ustring "node list"
  | NavigableString ustring
  | OtherString ustring

text \<open>
  \<^verbatim>\<open>for script in soup(names): script.extract()\<close>: every tag with one of the names
  leaves the tree, with all that is below it.
\<close>

fun extract_tags :: "ustring list \<Rightarrow> node list \<Rightarrow> node list" where
  "extract_tags names [] = []"
| "extract_tags names (Tag n cs # rest) =
     (if n \<in> set names then extract_tags names rest
      else Tag n (extract_tags names cs) # extract_tags names rest)"
| "extract_tags names (NavigableString s # rest) = NavigableString s # extract_tags names rest"
| "extract_tags names (OtherString s # rest) = OtherString s # extract_tags names rest"

fun get_text :: "node list \<Rightarrow> ustring" where
  "get_text [] = []"
| "get_text (Tag n cs # rest) = get_text cs @ get_text rest"
| "get_text (NavigableString s # rest) = s @ get_text rest"
| "get_text (OtherString s # rest) = get_text rest"

subsection \<open>The environment of one request\<close>

text \<open>
  A listed model of the provider, as \<^verbatim>\<open>genai.list_models()\<close> yields it.
\<close>

record model =
  name :: ustring
  supported_generation_methods :: "ustring list"

text \<open>
  Everything outside the program that one request reads.  A left injection is a raised
  exception and carries \<^verbatim>\<open>str(e)\<close>.
  \<^item> \<open>requests_get\<close>: \<^verbatim>\<open>requests.get(url, headers=headers, timeout=10)\<close>;
  \<^item> \<open>html_parser\<close>: \<^verbatim>\<open>BeautifulSoup(markup, 'html.parser')\<close>, the top-level nodes;
  \<^item> \<open>unicode_lower\<close>: what \<^verbatim>\<open>str.lower()\<close> puts for the non-ASCII code point at an
    index of a string; \<open>unicode_upper\<close>: what \<^verbatim>\<open>str.upper()\<close> puts for a non-ASCII code
    point (on ASCII both are defined below);
  \<^item> \<open>list_models\<close>: \<^verbatim>\<open>list(genai.list_models())\<close>;
  \<^item> \<open>generate_content\<close>: \<^verbatim>\<open>GenerativeModel(model_name).generate_content(prompt)\<close>; the
    response it returns either has a \<^verbatim>\<open>.text\<close> or raises when \<^verbatim>\<open>.text\<close> is read.
\<close>

record env =
  requests_get :: "ustring \<Rightarrow> ustring + response"
  html_parser :: "ustring \<Rightarrow> ustring + node list"
  unicode_lower :: "ustring \<Rightarrow> nat \<Rightarrow> ustring"
  unicode_upper :: "nat \<Rightarrow> ustring"
  list_models :: "ustring + model list"
  generate_content :: "ustring \<Rightarrow> ustring \<Rightarrow> ustring + (ustring + ustring)"

definition lower :: "env \<Rightarrow> ustring \<Rightarrow> ustring" where
  "lower env s =
     concat (map (\<lambda>i. if s ! i < 128
                         then [if 65 \<le> s ! i \<and> s ! i \<le> 90 then s ! i + 32 else s ! i]
                         else unicode_lower env s i) [0..<length s])"

definition upper :: "env \<Rightarrow> ustring \<Rightarrow> ustring" where
  "upper env s =
     concat (map (\<lambda>c. if c < 128 then [if 97 \<le> c \<and> c \<le> 122 then c - 32 else c]
                         else unicode_upper env c) s)"

subsection \<open>JSON values\<close>

text \<open>
  What \<^verbatim>\<open>json.loads\<close> returns.  \<open>JFloat m e\<close> is the float read from a literal with
  the decimal value \<open>m * 10 ^ e\<close>; \<open>JInf negative\<close> and \<open>JNaN\<close> are the floats of the
  literals \<^verbatim>\<open>Infinity\<close>, \<^verbatim>\<open>-Infinity\<close> and \<^verbatim>\<open>NaN\<close>.  A \<^verbatim>\<open>dict\<close> is the list of its
  items in insertion order, each key once.
\<close>

datatype json =
    JNull
  | JBool bool
  | JInt int
  | JFloat int int
  | JInf bool
  | JNaN
  | JStr ustring
  | JArr "json list"
  | JObj "(ustring \<times> json) list"

text \<open>\<^verbatim>\<open>d[k] = v\<close>: a present key keeps its place and takes the new value.\<close>

fun dict_set :: "(ustring \<times> json) list \<Rightarrow> ustring \<Rightarrow> json \<Rightarrow> (ustring \<times> json) list" where
  "dict_set [] k v = [(k, v)]"
| "dict_set ((k', v') # d) k v = (if k' = k then (k, v) # d else (k', v') # dict_set d k v)"

text \<open>\<^verbatim>\<open>d.get(k, default)\<close>.\<close>

definition dict_get :: "(ustring \<times> json) list \<Rightarrow> ustring \<Rightarrow> json \<Rightarrow> json" where
  "dict_get d k dflt = (case map_of d k of None \<Rightarrow> dflt | Some v \<Rightarrow> v)"

text \<open>\<^verbatim>\<open>type(v).__name__\<close>.\<close>

fun type_name :: "json \<Rightarrow> ustring" where
  "type_name JNull = ustr ''NoneType''"
| "type_name (JBool b) = ustr ''bool''"
| "type_name (JInt n) = ustr ''int''"
| "type_name (JFloat m e) = ustr ''float''"
| "type_name (JInf negative) = ustr ''float''"
| "type_name JNaN = ustr ''float''"
| "type_name (JStr s) = ustr ''str''"
| "type_name (JArr xs) = ustr ''list''"
| "type_name (JObj d) = ustr ''dict''"

text \<open>
  \<^verbatim>\<open>bool(v)\<close>.  A float is false when it is zero: the literal is zero, or so small that
  the nearest double is zero (at most \<open>2 ^ -1075\<close>, ties going to the even neighbour).
\<close>

fun truthy :: "json \<Rightarrow> bool" where
  "truthy JNull = False"
| "truthy (JBool b) = b"
| "truthy (JInt n) = (n \<noteq> 0)"
| "truthy (JFloat m e) = (\<not> (m = 0 \<or> (e < 0 \<and> \<bar>m\<bar> * 2 ^ 1075 \<le> 10 ^ nat (- e))))"
| "truthy (JInf negative) = True"
| "truthy JNaN = True"
| "truthy (JStr s) = (s \<noteq> [])"
| "truthy (JArr xs) = (xs \<noteq> [])"
| "truthy (JObj d) = (d \<noteq> [])"

text \<open>
  \<^verbatim>\<open>list(v)\<close> as a \<^verbatim>\<open>for\<close> loop walks it: the elements of a list, the characters of a
  string, the keys of a dict; \<open>None\<close> when \<^verbatim>\<open>v\<close> is not iterable.
\<close>

fun iterate :: "json \<Rightarrow> json list option" where
  "iterate (JArr xs) = Some xs"
| "iterate (JStr s) = Some (map (\<lambda>c. JStr [c]) s)"
| "iterate (JObj d) = Some (map (\<lambda>kv. JStr (fst kv)) d)"
| "iterate v = None"

subsection \<open>The decoder of the json module\<close>

text \<open>
  \<^verbatim>\<open>json.loads\<close> of the standard library on a \<^verbatim>\<open>str\<close>, \<open>None\<close> where it raises
  \<^verbatim>\<open>JSONDecodeError\<close>: the text is cut into tokens (\<open>lex\<close>), which a stack of open arrays
  and objects then reads (\<open>parse_tokens\<close>).  Blanks, tabs, line feeds and carriage
  returns may stand between tokens; a string follows \<^verbatim>\<open>scanstring\<close> in its strict mode;
  a number follows the decoder's pattern
  \<^verbatim>\<open>(-?(?:0|[1-9]\d*))(\.\d+)?([eE][-+]?\d+)?\<close>; a repeated key keeps its last value.
  The limits of the interpreter (recursion depth, digits of an integer) are not part
  of the model.
\<close>

definition hexval :: "nat \<Rightarrow> nat option" where
  "hexval c =
     (if 48 \<le> c \<and> c \<le> 57 then Some (c - 48)
      else if 97 \<le> c \<and> c \<le> 102 then Some (c - 87)
      else if 65 \<le> c \<and> c \<le> 70 then Some (c - 55)
      else None)"

definition decode_uXXXX :: "ustring \<Rightarrow> nat option" where
  "decode_uXXXX s =
     (case map hexval (take 4 s) of
        [Some a, Some b, Some c, Some d] \<Rightarrow> Some (((a * 16 + b) * 16 + c) * 16 + d)
      | _ \<Rightarrow> None)"

definition backslash :: "nat \<Rightarrow> nat option" where
  "backslash e =
     (if e = 34 \<or> e = 92 \<or> e = 47 then Some e
      else if e = 98 then Some 8
      else if e = 102 then Some 12
      else if e = 110 then Some 10
      else if e = 114 then Some 13
      else if e = 116 then Some 9
      else None)"

function scanstring_from :: "ustring \<Rightarrow> nat \<Rightarrow> ustring \<Rightarrow> (ustring \<times> nat) option" where
  "scanstring_from acc k [] = None"
| "scanstring_from acc k (c # cs) =
     (if c = 34 then Some (acc, k + 1)
      else if c = 92 then
        (case cs of
           [] \<Rightarrow> None
         | e # es \<Rightarrow>
             if e = 117 then
               (case decode_uXXXX es of
                  None \<Rightarrow> None
                | Some uni \<Rightarrow>
                    if 55296 \<le> uni \<and> uni \<le> 56319 \<and> startswith (drop 4 es) [92, 117] then
                      (case decode_uXXXX (drop 6 es) of
                         None \<Rightarrow> None
                       | Some uni2 \<Rightarrow>
                           if 56320 \<le> uni2 \<and> uni2 \<le> 57343
                           then scanstring_from
                                  (acc @ [65536 + ((uni - 55296) * 1024 + (uni2 - 56320))])
                                  (k + 12) (drop 10 es)
                           else scanstring_from (acc @ [uni]) (k + 6) (drop 4 es))
                    else scanstring_from (acc @ [uni]) (k + 6) (drop 4 es))
             else
               (case backslash e of
                  None \<Rightarrow> None
                | Some ch \<Rightarrow> scanstring_from (acc @ [ch]) (k + 2) es))
      else if c < 32 then None
      else scanstring_from (acc @ [c]) (k + 1) cs)"
  by pat_completeness auto
termination
  by (relation "measure (\<lambda>(acc, k, s). length s)") auto

definition scanstring :: "ustring \<Rightarrow> (ustring \<times> nat) option" where
  "scanstring s = scanstring_from [] 0 s"

definition is_digit :: "nat \<Rightarrow> bool" where
  "is_digit c \<longleftrightarrow> 48 \<le> c \<and> c \<le> 57"

definition int_of_digits :: "ustring \<Rightarrow> int" where
  "int_of_digits ds = foldl (\<lambda>a d. 10 * a + int (d - 48)) 0 ds"

definition match_number :: "ustring \<Rightarrow> (json \<times> nat) option" where
  "match_number s =
     (let negative = startswith s [45];
          s1 = (if negative then tl s else s);
          integer = (if startswith s1 [48] then [48] else takeWhile is_digit s1);
          s2 = drop (length integer) s1;
          frac = (if startswith s2 [46] then takeWhile is_digit (tl s2) else []);
          s3 = (if frac = [] then s2 else drop (1 + length frac) s2);
          signed = (startswith s3 [101] \<or> startswith s3 [69]) \<and>
                   (startswith (tl s3) [43] \<or> startswith (tl s3) [45]);
          digits = (if startswith s3 [101] \<or> startswith s3 [69]
                    then takeWhile is_digit (if signed then drop 2 s3 else tl s3) else []);
          exponent = (if signed \<and> startswith (tl s3) [45] then - int_of_digits digits
                      else int_of_digits digits);
          n = (if negative then 1 else 0) + length integer +
              (if frac = [] then 0 else 1 + length frac) +
              (if digits = [] then 0 else (if signed then 2 else 1) + length digits);
          m = int_of_digits (integer @ frac)
      in if integer = [] then None
         else if frac = [] \<and> digits = [] then Some (JInt (if negative then - m else m), n)
         else Some (JFloat (if negative then - m else m) (exponent - int (length frac)), n))"

datatype token = TLBrace | TRBrace | TLBracket | TRBracket | TColon | TComma | TScalar json

function lex :: "ustring \<Rightarrow> token list option" where
  "lex [] = Some []"
| "lex (c # cs) =
     (if c = 32 \<or> c = 9 \<or> c = 10 \<or> c = 13 then lex cs
      else if c = 34 then
        (case scanstring cs of
           None \<Rightarrow> None
         | Some (s, n) \<Rightarrow> map_option ((#) (TScalar (JStr s))) (lex (drop n cs)))
      else if c = 123 then map_option ((#) TLBrace) (lex cs)
      else if c = 125 then map_option ((#) TRBrace) (lex cs)
      else if c = 91 then map_option ((#) TLBracket) (lex cs)
      else if c = 93 then map_option ((#) TRBracket) (lex cs)
      else if c = 58 then map_option ((#) TColon) (lex cs)
      else if c = 44 then map_option ((#) TComma) (lex cs)
      else if startswith (c # cs) (ustr ''null'') then
        map_option ((#) (TScalar JNull)) (lex (drop 3 cs))
      else if startswith (c # cs) (ustr ''true'') then
        map_option ((#) (TScalar (JBool True))) (lex (drop 3 cs))
      else if startswith (c # cs) (ustr ''false'') then
        map_option ((#) (TScalar (JBool False))) (lex (drop 4 cs))
      else if startswith (c # cs) (ustr ''NaN'') then
        map_option ((#) (TScalar JNaN)) (lex (drop 2 cs))
      else if startswith (c # cs) (ustr ''Infinity'') then
        map_option ((#) (TScalar (JInf False))) (lex (drop 7 cs))
      else if startswith (c # cs) (ustr ''-Infinity'') then
        map_option ((#) (TScalar (JInf True))) (lex (drop 8 cs))
      else
        (case match_number (c # cs) of
           None \<Rightarrow> None
         | Some (v, n) \<Rightarrow> map_option ((#) (TScalar v)) (lex (drop (n - 1) cs))))"
  by pat_completeness auto
termination
  by (relation "measure length") auto

datatype frame =
    InArray "json list"
  | InObject "(ustring \<times> json) list"
  | InMember "(ustring \<times> json) list" ustring

datatype expect = Value | ValueOrClose | KeyOrClose | Key | Colon | CommaOrClose | Done json

fun complete :: "json \<Rightarrow> frame list \<Rightarrow> (frame list \<times> expect) option" where
  "complete v [] = Some ([], Done v)"
| "complete v (InArray xs # st) = Some (InArray (xs @ [v]) # st, CommaOrClose)"
| "complete v (InMember d k # st) = Some (InObject (dict_set d k v) # st, CommaOrClose)"
| "complete v (InObject d # st) = None"

definition begin_value :: "frame list \<Rightarrow> token \<Rightarrow> (frame list \<times> expect) option" where
  "begin_value st t =
     (case t of
        TScalar v \<Rightarrow> complete v st
      | TLBracket \<Rightarrow> Some (InArray [] # st, ValueOrClose)
      | TLBrace \<Rightarrow> Some (InObject [] # st, KeyOrClose)
      | _ \<Rightarrow> None)"

definition begin_member :: "frame list \<Rightarrow> token \<Rightarrow> (frame list \<times> expect) option" where
  "begin_member st t =
     (case (st, t) of
        (InObject d # st', TScalar (JStr k)) \<Rightarrow> Some (InMember d k # st', Colon)
      | _ \<Rightarrow> None)"

definition close_array :: "frame list \<Rightarrow> (frame list \<times> expect) option" where
  "close_array st = (case st of InArray xs # st' \<Rightarrow> complete (JArr xs) st' | _ \<Rightarrow> None)"

definition close_object :: "frame list \<Rightarrow> (frame list \<times> expect) option" where
  "close_object st = (case st of InObject d # st' \<Rightarrow> complete (JObj d) st' | _ \<Rightarrow> None)"

definition after_comma :: "frame list \<Rightarrow> (frame list \<times> expect) option" where
  "after_comma st =
     (case st of
        InArray xs # st' \<Rightarrow> Some (st, Value)
      | InObject d # st' \<Rightarrow> Some (st, Key)
      | _ \<Rightarrow> None)"

definition parse_step :: "frame list \<Rightarrow> expect \<Rightarrow> token \<Rightarrow> (frame list \<times> expect) option" where
  "parse_step st e t =
     (case e of
        Value \<Rightarrow> begin_value st t
      | ValueOrClose \<Rightarrow> if t = TRBracket then close_array st else begin_value st t
      | KeyOrClose \<Rightarrow> if t = TRBrace then close_object st else begin_member st t
      | Key \<Rightarrow> begin_member st t
      | Colon \<Rightarrow> if t = TColon then Some (st, Value) else None
      | CommaOrClose \<Rightarrow>
          if t = TComma then after_comma st
          else if t = TRBracket then close_array st
          else if t = TRBrace then close_object st
          else None
      | Done v \<Rightarrow> None)"

fun parse_tokens :: "frame list \<Rightarrow> expect \<Rightarrow> token list \<Rightarrow> json option" where
  "parse_tokens st e [] = (case e of Done v \<Rightarrow> Some v | _ \<Rightarrow> None)"
| "parse_tokens st e (t # ts) =
     (case parse_step st e t of None \<Rightarrow> None | Some (st', e') \<Rightarrow> parse_tokens st' e' ts)"

definition json_loads :: "ustring \<Rightarrow> json option" where
  "json_loads s = (case lex s of None \<Rightarrow> None | Some ts \<Rightarrow> parse_tokens [] Value ts)"

section \<open>The request\<close>

subsection \<open>What a request does\<close>

text \<open>An exception raised while the Verifier runs.\<close>

datatype exn =
    Raised ustring \<comment> \<open>by the provider's SDK; the payload is \<^verbatim>\<open>str(e)\<close>\<close>
  | JSONDecodeError \<comment> \<open>by \<^verbatim>\<open>json.loads\<close>\<close>
  | AttributeError ustring ustring \<comment> \<open>\<^verbatim>\<open>'T' object has no attribute 'a'\<close>: \<open>T\<close>, then \<open>a\<close>\<close>
  | NotIterable ustring \<comment> \<open>\<^verbatim>\<open>TypeError: 'T' object is not iterable\<close>\<close>
  | MetricTypeError json \<comment> \<open>\<^verbatim>\<open>TypeError\<close> of \<^verbatim>\<open>st.metric\<close>: the value is not int, float, str or None\<close>

text \<open>The second component of what \<^verbatim>\<open>get_best_model\<close> returns: a message, or the names.\<close>

datatype debug_info = DebugMessage ustring | DebugNames "ustring list"

text \<open>
  The calls a request makes to the outside, in order: the network calls and the
  Streamlit calls.  A call that formats a value into its message keeps the value:
  \<open>StErrorNoModel d\<close> is \<^verbatim>\<open>st.error(f"Could not find a valid model. Debug info: {d}")\<close>,
  \<open>StErrorAnalysisFailed e\<close> is \<^verbatim>\<open>st.error(f"Analysis failed: {str(e)}")\<close>,
  \<open>StWriteItem h\<close> is \<^verbatim>\<open>st.write(f"- {h}")\<close>.  \<open>Uncaught e\<close>: the exception leaves the script.
\<close>

datatype event =
    HttpGet ustring
  | Configure ustring
  | ListModels
  | GenerateContent ustring ustring
  | StSpinner ustring
  | StError ustring
  | StInfo ustring
  | StSuccess ustring
  | StMarkdown ustring
  | StMetric ustring json
  | StWrite json
  | StWriteItem json
  | StCode ustring
  | StErrorNoModel debug_info
  | StErrorAnalysisFailed exn
  | Uncaught exn

subsection \<open>The Extractor\<close>

text \<open>
  \<^verbatim>\<open>scrape_website\<close> from the parsed page on (lines 51 to 62): the text of the page
  without its script and style elements, cut into stripped, non-empty chunks, one per
  line.
\<close>

definition visible_text :: "node list \<Rightarrow> ustring" where
  "visible_text soup =
     (let text = get_text (extract_tags [ustr ''script'', ustr ''style''] soup);
          lines = map strip (splitlines text);
          chunks = concat (map (\<lambda>line. map strip (split line (ustr ''  ''))) lines)
      in join [10] (filter (\<lambda>chunk. chunk \<noteq> []) chunks))"

text \<open>
  \<^verbatim>\<open>scrape_website(url)\<close>: the one outbound call and the returned string.  Every
  exception within the \<^verbatim>\<open>try\<close> becomes a string that starts with \<^verbatim>\<open>ERROR: \<close>.
\<close>

definition scrape_website :: "env \<Rightarrow> ustring \<Rightarrow> event list \<times> ustring" where
  "scrape_website env u =
     ([HttpGet u],
      case requests_get env u of
        Inl e \<Rightarrow> ustr ''ERROR: '' @ e
      | Inr response \<Rightarrow>
          (case raise_for_status response of
             Some e \<Rightarrow> ustr ''ERROR: '' @ e
           | None \<Rightarrow>
               (case html_parser env (resp_text response) of
                  Inl e \<Rightarrow> ustr ''ERROR: '' @ e
                | Inr soup \<Rightarrow> visible_text soup)))"

subsection \<open>The Verifier\<close>

definition get_best_model :: "env \<Rightarrow> ustring option \<times> debug_info" where
  "get_best_model env =
     (case list_models env of
        Inl e \<Rightarrow> (None, DebugMessage (ustr ''Error listing models: '' @ e))
      | Inr models \<Rightarrow>
          (let valid_models =
                 filter (\<lambda>m. ustr ''generateContent'' \<in> set (supported_generation_methods m))
                   models
           in if valid_models = [] then
                (None, DebugMessage (ustr ''No models found that support generateContent.''))
              else
                (case find (\<lambda>m. contains (lower env (name m)) (ustr ''flash'')) valid_models of
                   Some flash_model \<Rightarrow> (Some (name flash_model), DebugNames (map name valid_models))
                 | None \<Rightarrow>
                     (case find (\<lambda>m. contains (lower env (name m)) (ustr ''pro'')) valid_models of
                        Some pro_model \<Rightarrow>
                          (Some (name pro_model), DebugNames (map name valid_models))
                      | None \<Rightarrow>
                          (Some (name (hd valid_models)), DebugNames (map name valid_models))))))"

text \<open>The three constant parts of the prompt's f-string (lines 119 to 145).\<close>

definition prompt_head :: ustring where
  \<open>prompt_head = concat (map ustr
    [''\<newline>'',
     ''                        You are a strict compliance and quality control officer for advertising.\<newline>'',
     ''                        \<newline>'',
     ''                        Your task is to verify an 'Ad Script' against the ground truth text from a 'Source Website'.\<newline>'',
     ''                        \<newline>'',
     ''                        Step 1: Analyize the 'Source Website Text' to understand the facts, features, and tone.\<newline>'',
     ''                        Step 2: Check the 'Ad Script' for any factual hallucinations (claims not supported by the website).\<newline>'',
     ''                        Step 3: Analyze if the tone of the ad matches the website's voice.\<newline>'',
     ''                        Step 4: Assign a quality score from 0-100.\<newline>'',
     ''                        \<newline>'',
     ''                        Return a valid JSON object ONLY. Do not use Markdown code blocks.\<newline>'',
     ''                        Structure:\<newline>'',
     ''                        {\<newline>'',
     ''                            "score": (integer 0-100),\<newline>'',
     ''                            "hallucinations": ["string list of specific claims in the ad that exist nowhere on the site"],\<newline>'',
     ''                            "tone_consistency": "Brief analysis of whether the ad voice matches the site voice",\<newline>'',
     ''                            "verdict": "PASS" (if score > 80 and no major hallucinations) or "FAIL"\<newline>'',
     ''                        }\<newline>'',
     ''                        \<newline>'',
     ''                        ---\<newline>'',
     ''                        Source Website Text:\<newline>'',
     ''                        ''])\<close>

definition prompt_mid :: ustring where
  \<open>prompt_mid = concat (map ustr
    ['' \<newline>'',
     ''                        \<newline>'',
     ''                        ---\<newline>'',
     ''                        Ad Script:\<newline>'',
     ''                        ''])\<close>

definition prompt_tail :: ustring where
  \<open>prompt_tail = concat (map ustr
    [''\<newline>'',
     ''                        ''])\<close>

definition build_prompt :: "ustring \<Rightarrow> ustring \<Rightarrow> ustring" where
  "build_prompt site_text ad_script =
     prompt_head @ take 30000 site_text @ prompt_mid @ ad_script @ prompt_tail"

text \<open>Lines 151 to 158: the reply without a code fence around it.\<close>

definition clean_response :: "ustring \<Rightarrow> ustring" where
  "clean_response response_text =
     (let text_resp = strip response_text;
          text_resp =
            (if startswith text_resp [96, 96, 96] then
               (let parts = split text_resp [96, 96, 96] in
                if length parts \<ge> 2 then
                  (let text_resp = parts ! 1 in
                   if startswith text_resp (ustr ''json'') then drop 4 text_resp else text_resp)
                else text_resp)
             else text_resp)
      in strip text_resp)"

text \<open>\<^verbatim>\<open>st.metric\<close> takes an int (a bool is one), a float, a str or None as its value.\<close>

fun metric_accepts :: "json \<Rightarrow> bool" where
  "metric_accepts (JArr xs) = False"
| "metric_accepts (JObj d) = False"
| "metric_accepts v = True"

text \<open>
  Lines 165 to 185, the display of the parsed reply: the calls made, and the exception
  that ended them, if one did.
\<close>

definition show_results :: "env \<Rightarrow> json \<Rightarrow> event list \<times> exn option" where
  "show_results env result =
     (case result of
        JObj d \<Rightarrow>
          (let score = dict_get d (ustr ''score'') (JInt 0) in
           if \<not> metric_accepts score then ([], Some (MetricTypeError score))
           else
             (case dict_get d (ustr ''verdict'') (JStr (ustr ''FAIL'')) of
                JStr v \<Rightarrow>
                  (let verdict = upper env v;
                       shown =
                         [StMetric (ustr ''Quality Score'') score,
                          if verdict = ustr ''PASS'' then StSuccess (ustr ''Verdict: '' @ verdict)
                          else StError (ustr ''Verdict: '' @ verdict),
                          StMarkdown (ustr ''### Tone Analysis''),
                          StWrite (dict_get d (ustr ''tone_consistency'') (JStr (ustr ''N/A'')))];
                       hallucinations = dict_get d (ustr ''hallucinations'') (JArr [])
                   in if truthy hallucinations then
                        (case iterate hallucinations of
                           Some hs \<Rightarrow>
                             (shown @
                              [StError ([35, 35, 35, 32, 9888, 65039, 32] @
                                        ustr ''Potential Hallucinations Detected'')] @
                              map StWriteItem hs, None)
                         | None \<Rightarrow>
                             (shown @
                              [StError ([35, 35, 35, 32, 9888, 65039, 32] @
                                        ustr ''Potential Hallucinations Detected'')],
                              Some (NotIterable (type_name hallucinations))))
                      else if verdict = ustr ''PASS'' then
                        (shown @ [StSuccess (ustr ''No factual hallucinations detected.'')], None)
                      else (shown, None))
              | other \<Rightarrow>
                  ([StMetric (ustr ''Quality Score'') score],
                   Some (AttributeError (type_name other) (ustr ''upper'')))))
      | other \<Rightarrow> ([], Some (AttributeError (type_name other) (ustr ''get''))))"

text \<open>
  The \<^verbatim>\<open>except\<close> block (lines 187 to 191).  \<open>response\<close> is \<open>None\<close> when the exception
  came before \<^verbatim>\<open>response\<close> was assigned; reading \<^verbatim>\<open>response.text\<close> may raise again.
\<close>

definition analysis_failed :: "exn \<Rightarrow> (ustring + ustring) option \<Rightarrow> event list" where
  "analysis_failed e response =
     [StErrorAnalysisFailed e, StWrite (JStr (ustr ''Raw response (for debugging):''))] @
     (case response of
        None \<Rightarrow> []
      | Some (Inl e') \<Rightarrow> [Uncaught (Raised e')]
      | Some (Inr response_text) \<Rightarrow> [StCode response_text])"

text \<open>The \<^verbatim>\<open>try\<close> block (lines 83 to 185) with its \<^verbatim>\<open>except\<close>.\<close>

definition analyze :: "env \<Rightarrow> ustring \<Rightarrow> ustring \<Rightarrow> ustring \<Rightarrow> event list" where
  "analyze env gemini_key site_text ad_script =
     [Configure gemini_key, ListModels] @
     (case get_best_model env of
        (None, debug_info) \<Rightarrow> [StErrorNoModel debug_info]
      | (Some model_name, debug_info) \<Rightarrow>
          if model_name = [] then [StErrorNoModel debug_info]
          else
            [StInfo (ustr ''Using model: **'' @ model_name @ ustr ''**''),
             GenerateContent model_name (build_prompt site_text ad_script)] @
            (case generate_content env model_name (build_prompt site_text ad_script) of
               Inl e \<Rightarrow> analysis_failed (Raised e) None
             | Inr response \<Rightarrow>
                 (case response of
                    Inl e \<Rightarrow> analysis_failed (Raised e) (Some response)
                  | Inr response_text \<Rightarrow>
                      (case json_loads (clean_response response_text) of
                         None \<Rightarrow> analysis_failed JSONDecodeError (Some response)
                       | Some result \<Rightarrow>
                           (case show_results env result of
                              (shown, None) \<Rightarrow> shown
                            | (shown, Some e) \<Rightarrow> shown @ analysis_failed e (Some response))))))"

subsection \<open>The handler of the button\<close>

text \<open>
  Lines 68 to 191: what one run of the script does after the form is read, given
  whether the button was pressed and the three inputs.
\<close>

definition verify_btn_handler ::
  "env \<Rightarrow> bool \<Rightarrow> ustring \<Rightarrow> ustring \<Rightarrow> ustring \<Rightarrow> event list" where
  "verify_btn_handler env verify_btn gemini_key target_url ad_script =
     (if \<not> verify_btn then []
      else if gemini_key = [] then [StError (ustr ''Please enter your Google Gemini API Key.'')]
      else if target_url = [] then [StError (ustr ''Please enter a Target URL.'')]
      else if ad_script = [] then [StError (ustr ''Please enter the Ad Script.'')]
      else
        (let (fetched, site_text) = scrape_website env target_url in
         [StSpinner (ustr ''Scraping website...'')] @ fetched @
         (if startswith site_text (ustr ''ERROR:'') then
            [StError (ustr ''Failed to scrape website: '' @ site_text)]
          else
            [StSpinner (ustr ''Analyzing with Gemini 2.5 Flash...'')] @
            analyze env gemini_key site_text ad_script)))"

section \<open>Notions used to state the properties\<close>

text \<open>
  The strings of a page, and those that stand below a tag with one of the given names
  (the text inside the script and style blocks).
\<close>

fun all_strings :: "node list \<Rightarrow> ustring list" where
  "all_strings [] = []"
| "all_strings (Tag n cs # rest) = all_strings cs @ all_strings rest"
| "all_strings (NavigableString s # rest) = s # all_strings rest"
| "all_strings (OtherString s # rest) = s # all_strings rest"

fun block_strings :: "ustring list \<Rightarrow> node list \<Rightarrow> ustring list" where
  "block_strings names [] = []"
| "block_strings names (Tag n cs # rest) =
     (if n \<in> set names then all_strings cs else block_strings names cs) @ block_strings names rest"
| "block_strings names (NavigableString s # rest) = block_strings names rest"
| "block_strings names (OtherString s # rest) = block_strings names rest"

text \<open>
  An environment for the examples: every URL answers with the given status and markup,
  which the parser reads as the given nodes; the provider lists no model.
\<close>

definition page_env :: "nat \<Rightarrow> ustring \<Rightarrow> node list \<Rightarrow> env" where
  "page_env status markup soup =
     \<lparr> requests_get = (\<lambda>u. Inr \<lparr> status_code = status, reason = ustr ''-'', url = u, resp_text = markup \<rparr>),
       html_parser = (\<lambda>t. if t = markup then Inr soup else Inr [NavigableString t]),
       unicode_lower = (\<lambda>s i. [s ! i]),
       unicode_upper = (\<lambda>c. [c]),
       list_models = Inr [],
       generate_content = (\<lambda>m p. Inl []) \<rparr>"


text \<open>
  The defaults of the four fields of a reply, the reply with every missing field set to
  its default, and the replies whose present fields the display can use: a score that
  \<^verbatim>\<open>st.metric\<close> takes, a verdict that is a string, hallucinations that are empty or can
  be iterated.
\<close>

definition reply_defaults :: "(ustring \<times> json) list" where
  "reply_defaults =
     [(ustr ''score'', JInt 0), (ustr ''verdict'', JStr (ustr ''FAIL'')),
      (ustr ''hallucinations'', JArr []), (ustr ''tone_consistency'', JStr (ustr ''N/A''))]"

definition with_defaults :: "(ustring \<times> json) list \<Rightarrow> (ustring \<times> json) list" where
  "with_defaults d = d @ filter (\<lambda>kv. map_of d (fst kv) = None) reply_defaults"

definition present_fields_usable :: "(ustring \<times> json) list \<Rightarrow> bool" where
  "present_fields_usable d \<longleftrightarrow>
     (case map_of d (ustr ''score'') of None \<Rightarrow> True | Some v \<Rightarrow> metric_accepts v) \<and>
     (case map_of d (ustr ''verdict'') of None \<Rightarrow> True | Some v \<Rightarrow> type_name v = ustr ''str'') \<and>
     (case map_of d (ustr ''hallucinations'') of
        None \<Rightarrow> True
      | Some v \<Rightarrow> truthy v \<longrightarrow> iterate v \<noteq> None)"

section \<open>Properties of the string functions\<close>

lemma startswith_append: "startswith (p @ s) p"
  by (simp add: startswith_def)

lemma set_strip: "set (strip s) \<subseteq> set s"
  by (auto simp: strip_def dest!: set_dropWhileD)

lemma strip_not_blank:
  assumes "strip s \<noteq> []"
  shows "\<not> list_all is_space (strip s)"
proof -
  define d where "d = dropWhile is_space (rev (dropWhile is_space s))"
  have ne: "d \<noteq> []" using assms by (simp add: strip_def d_def)
  then have "\<not> is_space (hd d)" unfolding d_def by (rule hd_dropWhile)
  moreover have "hd d \<in> set (strip s)" using ne by (simp add: strip_def d_def)
  ultimately show ?thesis by (auto simp: list_all_iff)
qed

lemma splitlines_from_no_break:
  "l \<in> set (splitlines_from cur s) \<Longrightarrow> \<forall>c\<in>set cur. \<not> is_linebreak c \<Longrightarrow> c \<in> set l \<Longrightarrow> \<not> is_linebreak c"
  by (induction cur s rule: splitlines_from.induct) (auto split: if_splits)

lemma split_from_subset:
  "l \<in> set (split_from sep cur s) \<Longrightarrow> set l \<subseteq> set cur \<union> set s"
  by (induction sep cur s rule: split_from.induct) (auto split: if_splits dest: in_set_dropD)

lemma splitlines_from_append:
  "\<forall>c\<in>set x. \<not> is_linebreak c \<Longrightarrow> splitlines_from cur (x @ rest) = splitlines_from (cur @ x) rest"
  by (induction x arbitrary: cur) (auto simp: is_linebreak_def)

lemma splitlines_from_join:
  "\<forall>y\<in>set (x # xs). y \<noteq> [] \<and> (\<forall>c\<in>set y. \<not> is_linebreak c) \<Longrightarrow>
   splitlines_from cur (join [10] (x # xs)) = (cur @ x) # xs"
proof (induction xs arbitrary: x cur)
  case Nil
  then show ?case using splitlines_from_append[of x cur "[]"] by simp
next
  case (Cons y ys)
  have "splitlines_from cur (join [10] (x # y # ys)) = splitlines_from (cur @ x) (10 # join [10] (y # ys))"
    using Cons.prems splitlines_from_append[of x cur "10 # join [10] (y # ys)"] by simp
  also have "\<dots> = (cur @ x) # splitlines_from [] (join [10] (y # ys))"
    by (simp add: is_linebreak_def)
  also have "\<dots> = (cur @ x) # y # ys"
    using Cons.IH[of y "[]"] Cons.prems by simp
  finally show ?case .
qed

lemma splitlines_join:
  "\<forall>y\<in>set xs. y \<noteq> [] \<and> (\<forall>c\<in>set y. \<not> is_linebreak c) \<Longrightarrow> splitlines (join [10] xs) = xs"
  by (cases xs) (simp add: splitlines_def, simp add: splitlines_def splitlines_from_join del: join.simps)

lemma split_from_append:
  "10 \<notin> set x \<Longrightarrow> split_from [10] cur (x @ rest) = split_from [10] (cur @ x) rest"
  by (induction x arbitrary: cur) (auto simp: startswith_def)

lemma split_from_join:
  "\<forall>y\<in>set (x # xs). 10 \<notin> set y \<Longrightarrow>
   split_from [10] cur (join [10] (x # xs)) = (cur @ x) # xs"
proof (induction xs arbitrary: x cur)
  case Nil
  then show ?case using split_from_append[of x cur "[]"] by simp
next
  case (Cons y ys)
  have "split_from [10] cur (join [10] (x # y # ys)) = split_from [10] (cur @ x) (10 # join [10] (y # ys))"
    using Cons.prems split_from_append[of x cur "10 # join [10] (y # ys)"] by simp
  also have "\<dots> = (cur @ x) # split_from [10] [] (join [10] (y # ys))"
    by (simp add: startswith_def)
  also have "\<dots> = (cur @ x) # y # ys"
    using Cons.IH[of y "[]"] Cons.prems by simp
  finally show ?case .
qed

lemma split_join:
  "xs \<noteq> [] \<Longrightarrow> \<forall>y\<in>set xs. 10 \<notin> set y \<Longrightarrow> split (join [10] xs) [10] = xs"
  by (cases xs) (simp_all add: split_def split_from_join del: join.simps)

text \<open>The chunks that \<open>visible_text\<close> joins.\<close>

lemma visible_text_chunks:
  "\<exists>chunks. visible_text soup = join [10] chunks \<and>
     (\<forall>chunk\<in>set chunks. chunk \<noteq> [] \<and> \<not> list_all is_space chunk \<and> (\<forall>c\<in>set chunk. \<not> is_linebreak c))"
proof -
  define page where "page = get_text (extract_tags [ustr ''script'', ustr ''style''] soup)"
  define lines where "lines = map strip (splitlines page)"
  define chunks where "chunks = filter (\<lambda>chunk. chunk \<noteq> []) (concat (map (\<lambda>line. map strip (split line (ustr ''  ''))) lines))"
  have vt: "visible_text soup = join [10] chunks"
    by (simp add: visible_text_def Let_def chunks_def lines_def page_def)
  have line_ok: "\<not> is_linebreak c" if "line \<in> set lines" "c \<in> set line" for line c
  proof -
    from that(1) obtain l where l: "l \<in> set (splitlines page)" "line = strip l"
      by (auto simp: lines_def)
    from that(2) l(2) have "c \<in> set l" using set_strip by blast
    with l(1) show ?thesis
      using splitlines_from_no_break[of l "[]" page c] by (simp add: splitlines_def)
  qed
  have "chunk \<noteq> [] \<and> \<not> list_all is_space chunk \<and> (\<forall>c\<in>set chunk. \<not> is_linebreak c)"
    if "chunk \<in> set chunks" for chunk
  proof -
    from that obtain line piece where lp: "line \<in> set lines" "piece \<in> set (split line (ustr ''  ''))"
      "chunk = strip piece" "chunk \<noteq> []"
      by (auto simp: chunks_def)
    have "set chunk \<subseteq> set line"
      using lp(2,3) split_from_subset[of piece "ustr ''  ''" "[]" line] set_strip[of piece]
      by (auto simp: split_def)
    then have "\<forall>c\<in>set chunk. \<not> is_linebreak c" using line_ok[OF lp(1)] by blast
    moreover have "\<not> list_all is_space chunk" using lp(3,4) strip_not_blank by blast
    ultimately show ?thesis using lp(4) by blast
  qed
  with vt show ?thesis by blast
qed

lemma visible_text_lines:
  "list_all (\<lambda>l. l \<noteq> [] \<and> \<not> list_all is_space l) (splitlines (visible_text soup)) \<and>
   (visible_text soup \<noteq> [] \<longrightarrow>
      list_all (\<lambda>l. l \<noteq> [] \<and> \<not> list_all is_space l) (split (visible_text soup) [10]))"
proof -
  obtain chunks where c: "visible_text soup = join [10] chunks"
    and ok: "\<forall>chunk\<in>set chunks. chunk \<noteq> [] \<and> \<not> list_all is_space chunk \<and> (\<forall>c\<in>set chunk. \<not> is_linebreak c)"
    using visible_text_chunks by blast
  have all: "list_all (\<lambda>l. l \<noteq> [] \<and> \<not> list_all is_space l) chunks"
    using ok unfolding list_all_iff by blast
  have "splitlines (join [10] chunks) = chunks"
    using ok by (intro splitlines_join) blast
  then have 1: "splitlines (visible_text soup) = chunks"
    by (simp only: c)
  have no10: "\<forall>y\<in>set chunks. 10 \<notin> set y"
  proof (intro ballI notI)
    fix y assume "y \<in> set chunks" "10 \<in> set y"
    then have "\<not> is_linebreak 10" using ok by blast
    then show False by (simp add: is_linebreak_def)
  qed
  have 2: "split (visible_text soup) [10] = chunks" if "visible_text soup \<noteq> []"
  proof -
    have "chunks \<noteq> []" using that c by auto
    then have "split (join [10] chunks) [10] = chunks" using no10 by (rule split_join)
    then show ?thesis by (simp only: c)
  qed
  show ?thesis
  proof (intro conjI impI)
    show "list_all (\<lambda>l. l \<noteq> [] \<and> \<not> list_all is_space l) (splitlines (visible_text soup))"
      using all by (simp only: 1)
    assume "visible_text soup \<noteq> []"
    then show "list_all (\<lambda>l. l \<noteq> [] \<and> \<not> list_all is_space l) (split (visible_text soup) [10])"
      using all 2 by simp
  qed
qed

section \<open>Properties of the Extractor\<close>

lemma extract_tags_idem: "extract_tags names (extract_tags names soup) = extract_tags names soup"
  by (induction names soup rule: extract_tags.induct) auto

lemma block_strings_extract_tags: "block_strings names (extract_tags names soup) = []"
  by (induction names soup rule: extract_tags.induct) auto

lemma visible_text_extract_tags:
  "visible_text (extract_tags [ustr ''script'', ustr ''style''] soup) = visible_text soup"
  by (simp only: visible_text_def extract_tags_idem)

lemma scrape_website_success:
  assumes "requests_get env u = Inr r" "raise_for_status r = None" "html_parser env (resp_text r) = Inr soup"
  shows "scrape_website env u = ([HttpGet u], visible_text soup)"
  using assms by (simp add: scrape_website_def)


lemma startswith_ERROR: "startswith (ustr ''ERROR: '' @ e) (ustr ''ERROR:'')"
  by (simp add: startswith_def ustr_def)

section \<open>The flow of a request\<close>

text \<open>
  C1.  When the string that the Extractor returns starts with \<^verbatim>\<open>ERROR:\<close>, the request
  consists of the spinner, the fetch and the report of the scrape error: the provider
  is not configured, no models are listed, no prompt is built and nothing is generated.
\<close>

theorem scrape_error_skips_verifier:
  assumes "gemini_key \<noteq> []" and "target_url \<noteq> []" and "ad_script \<noteq> []"
    and "startswith (snd (scrape_website env target_url)) (ustr ''ERROR:'')"
  shows "verify_btn_handler env True gemini_key target_url ad_script =
           [StSpinner (ustr ''Scraping website...''), HttpGet target_url,
            StError (ustr ''Failed to scrape website: '' @ snd (scrape_website env target_url))] \<and>
         ListModels \<notin> set (verify_btn_handler env True gemini_key target_url ad_script) \<and>
         (\<forall>m p. GenerateContent m p \<notin> set (verify_btn_handler env True gemini_key target_url ad_script))"
proof -
  have fst_scrape: "fst (scrape_website env target_url) = [HttpGet target_url]"
    by (simp add: scrape_website_def)
  have "verify_btn_handler env True gemini_key target_url ad_script =
           [StSpinner (ustr ''Scraping website...''), HttpGet target_url,
            StError (ustr ''Failed to scrape website: '' @ snd (scrape_website env target_url))]"
    using assms fst_scrape by (simp add: verify_btn_handler_def case_prod_beta)
  then show ?thesis by simp
qed

theorem scrape_error_skips_verifier_witness:
  "ustr ''key'' \<noteq> [] \<and> ustr ''http://a'' \<noteq> [] \<and> ustr ''ad'' \<noteq> [] \<and>
   startswith (snd (scrape_website (page_env 404 [] []) (ustr ''http://a''))) (ustr ''ERROR:'') \<and>
   verify_btn_handler (page_env 404 [] []) True (ustr ''key'') (ustr ''http://a'') (ustr ''ad'') =
     [StSpinner (ustr ''Scraping website...''), HttpGet (ustr ''http://a''),
      StError (ustr ''Failed to scrape website: ERROR: 404 Client Error: - for url: http://a'')]"
proof -
  have h1: "ustr ''key'' \<noteq> []" and h2: "ustr ''http://a'' \<noteq> []" and h3: "ustr ''ad'' \<noteq> []"
    by (simp_all add: ustr_def)
  have s: "snd (scrape_website (page_env 404 [] []) (ustr ''http://a'')) =
             ustr ''ERROR: 404 Client Error: - for url: http://a''"
    by (simp add: scrape_website_def page_env_def raise_for_status_def ustr_def str_nat.simps)
  have h4: "startswith (snd (scrape_website (page_env 404 [] []) (ustr ''http://a''))) (ustr ''ERROR:'')"
    unfolding s by (simp add: startswith_def ustr_def)
  from scrape_error_skips_verifier[OF h1 h2 h3 h4] h1 h2 h3 h4 show ?thesis
    unfolding s by (simp add: ustr_def)
qed

text \<open>
  C9.  With the button pressed, an empty credential, URL or ad script ends the request
  with the message for the first empty input, in the order credential, URL, ad script;
  that message is the only call made, so nothing is fetched and no step of the
  Verifier runs.  (Blank is what \<^verbatim>\<open>not s\<close> tests: the empty string.)
\<close>

theorem blank_input_stops_request:
  "(gemini_key = [] \<longrightarrow>
      verify_btn_handler env True gemini_key target_url ad_script =
        [StError (ustr ''Please enter your Google Gemini API Key.'')]) \<and>
   (gemini_key \<noteq> [] \<and> target_url = [] \<longrightarrow>
      verify_btn_handler env True gemini_key target_url ad_script =
        [StError (ustr ''Please enter a Target URL.'')]) \<and>
   (gemini_key \<noteq> [] \<and> target_url \<noteq> [] \<and> ad_script = [] \<longrightarrow>
      verify_btn_handler env True gemini_key target_url ad_script =
        [StError (ustr ''Please enter the Ad Script.'')])"
  by (simp add: verify_btn_handler_def)

theorem blank_input_stops_request_witness:
  "verify_btn_handler (page_env 200 [] []) True [] (ustr ''http://a'') (ustr ''ad'') =
     [StError (ustr ''Please enter your Google Gemini API Key.'')] \<and>
   ustr ''key'' \<noteq> [] \<and>
   verify_btn_handler (page_env 200 [] []) True (ustr ''key'') [] (ustr ''ad'') =
     [StError (ustr ''Please enter a Target URL.'')] \<and>
   ustr ''http://a'' \<noteq> [] \<and>
   verify_btn_handler (page_env 200 [] []) True (ustr ''key'') (ustr ''http://a'') [] =
     [StError (ustr ''Please enter the Ad Script.'')]"
proof -
  have k: "ustr ''key'' \<noteq> []" and u: "ustr ''http://a'' \<noteq> []"
    by (simp_all add: ustr_def)
  show ?thesis
    using blank_input_stops_request[of "[]" "page_env 200 [] []" "ustr ''http://a''" "ustr ''ad''"]
      blank_input_stops_request[of "ustr ''key''" "page_env 200 [] []" "[]" "ustr ''ad''"]
      blank_input_stops_request[of "ustr ''key''" "page_env 200 [] []" "ustr ''http://a''" "[]"]
      k u
    by blast
qed

text \<open>
  C10.  A fetch that succeeds, with a page whose visible text starts with \<^verbatim>\<open>ERROR:\<close>,
  is handled as a failed scrape: the Extractor returns the page text, and the handler
  reports it as a scrape error and stops before the Verifier.  The witness is such a
  page.
\<close>

theorem page_text_starting_with_ERROR_is_refused:
  assumes "gemini_key \<noteq> []" and "target_url \<noteq> []" and "ad_script \<noteq> []"
    and "requests_get env target_url = Inr r" and "raise_for_status r = None"
    and "html_parser env (resp_text r) = Inr soup"
    and "startswith (visible_text soup) (ustr ''ERROR:'')"
  shows "snd (scrape_website env target_url) = visible_text soup \<and>
         verify_btn_handler env True gemini_key target_url ad_script =
           [StSpinner (ustr ''Scraping website...''), HttpGet target_url,
            StError (ustr ''Failed to scrape website: '' @ visible_text soup)]"
  using assms
  by (simp add: verify_btn_handler_def scrape_website_success)

theorem page_text_starting_with_ERROR_is_refused_witness:
  "ustr ''key'' \<noteq> [] \<and> ustr ''http://a'' \<noteq> [] \<and> ustr ''ad'' \<noteq> [] \<and>
   requests_get (page_env 200 (ustr ''ERROR: 42 is the answer'') [NavigableString (ustr ''ERROR: 42 is the answer'')])
     (ustr ''http://a'') =
     Inr \<lparr>status_code = 200, reason = ustr ''-'', url = ustr ''http://a'',
          resp_text = ustr ''ERROR: 42 is the answer''\<rparr> \<and>
   raise_for_status \<lparr>status_code = 200, reason = ustr ''-'', url = ustr ''http://a'',
          resp_text = ustr ''ERROR: 42 is the answer''\<rparr> = None \<and>
   visible_text [NavigableString (ustr ''ERROR: 42 is the answer'')] = ustr ''ERROR: 42 is the answer'' \<and>
   startswith (visible_text [NavigableString (ustr ''ERROR: 42 is the answer'')]) (ustr ''ERROR:'') \<and>
   verify_btn_handler
     (page_env 200 (ustr ''ERROR: 42 is the answer'') [NavigableString (ustr ''ERROR: 42 is the answer'')])
     True (ustr ''key'') (ustr ''http://a'') (ustr ''ad'') =
     [StSpinner (ustr ''Scraping website...''), HttpGet (ustr ''http://a''),
      StError (ustr ''Failed to scrape website: ERROR: 42 is the answer'')]"
proof -
  let ?page = "ustr ''ERROR: 42 is the answer''"
  let ?env = "page_env 200 ?page [NavigableString ?page]"
  let ?r = "\<lparr>status_code = 200, reason = ustr ''-'', url = ustr ''http://a'', resp_text = ?page\<rparr>"
  have h1: "ustr ''key'' \<noteq> []" and h2: "ustr ''http://a'' \<noteq> []" and h3: "ustr ''ad'' \<noteq> []"
    by (simp_all add: ustr_def)
  have h4: "requests_get ?env (ustr ''http://a'') = Inr ?r"
    by (simp add: page_env_def)
  have h5: "raise_for_status ?r = None"
    by (simp add: raise_for_status_def)
  have h6: "html_parser ?env (resp_text ?r) = Inr [NavigableString ?page]"
    by (simp add: page_env_def)
  have v: "visible_text [NavigableString ?page] = ?page"
    by (simp add: visible_text_def ustr_def splitlines_def split_def strip_def is_space_def
        is_linebreak_def startswith_def)
  have h7: "startswith (visible_text [NavigableString ?page]) (ustr ''ERROR:'')"
    unfolding v by (simp add: startswith_def ustr_def)
  from page_text_starting_with_ERROR_is_refused[OF h1 h2 h3 h4 h5 h6 h7] h1 h2 h3 h4 h5 h7 v
  show ?thesis by (simp add: ustr_def)
qed

section \<open>The Extractor's results\<close>

text \<open>
  A status of 300 is not a 2xx status, and \<^verbatim>\<open>raise_for_status\<close> does not raise for it:
  the body comes back as page text, without the \<^verbatim>\<open>ERROR:\<close> prefix.
\<close>

theorem redirect_status_counterexample:
  "requests_get (page_env 300 (ustr ''Pick a page'') [NavigableString (ustr ''Pick a page'')]) (ustr ''http://a'') =
     Inr \<lparr>status_code = 300, reason = ustr ''-'', url = ustr ''http://a'', resp_text = ustr ''Pick a page''\<rparr> \<and>
   scrape_website (page_env 300 (ustr ''Pick a page'') [NavigableString (ustr ''Pick a page'')]) (ustr ''http://a'') =
     ([HttpGet (ustr ''http://a'')], ustr ''Pick a page'') \<and>
   \<not> startswith (ustr ''Pick a page'') (ustr ''ERROR:'')"
  by (simp add: scrape_website_def page_env_def raise_for_status_def visible_text_def ustr_def
      splitlines_def split_def strip_def is_space_def is_linebreak_def startswith_def)

text \<open>
  C4, amended.  When the fetch raises, or answers with a status from 400 to 599, the
  Extractor returns \<^verbatim>\<open>ERROR: \<close> followed by the text of the exception (for a status, the
  message of the \<^verbatim>\<open>HTTPError\<close>), so the result starts with \<^verbatim>\<open>ERROR:\<close>.
\<close>

theorem scrape_website_reports_errors:
  "(requests_get env u = Inl e \<longrightarrow> snd (scrape_website env u) = ustr ''ERROR: '' @ e) \<and>
   (requests_get env u = Inr r \<and> 400 \<le> status_code r \<and> status_code r < 600 \<longrightarrow>
      snd (scrape_website env u) =
        ustr ''ERROR: '' @ str_nat (status_code r) @
        (if status_code r < 500 then ustr '' Client Error: '' else ustr '' Server Error: '') @
        reason r @ ustr '' for url: '' @ url r) \<and>
   (requests_get env u = Inl e \<or>
    requests_get env u = Inr r \<and> 400 \<le> status_code r \<and> status_code r < 600 \<longrightarrow>
      startswith (snd (scrape_website env u)) (ustr ''ERROR:''))"
proof (intro conjI impI)
  assume "requests_get env u = Inl e"
  then show "snd (scrape_website env u) = ustr ''ERROR: '' @ e"
    by (simp add: scrape_website_def)
next
  assume "requests_get env u = Inr r \<and> 400 \<le> status_code r \<and> status_code r < 600"
  then show "snd (scrape_website env u) =
        ustr ''ERROR: '' @ str_nat (status_code r) @
        (if status_code r < 500 then ustr '' Client Error: '' else ustr '' Server Error: '') @
        reason r @ ustr '' for url: '' @ url r"
    by (simp add: scrape_website_def raise_for_status_def)
next
  assume "requests_get env u = Inl e \<or>
    requests_get env u = Inr r \<and> 400 \<le> status_code r \<and> status_code r < 600"
  then show "startswith (snd (scrape_website env u)) (ustr ''ERROR:'')"
    by (auto simp: scrape_website_def raise_for_status_def startswith_ERROR)
qed

theorem scrape_website_reports_errors_witness:
  "requests_get (page_env 200 [] [] \<lparr>requests_get := \<lambda>u. Inl (ustr ''Connection refused'')\<rparr>) (ustr ''http://a'') =
     Inl (ustr ''Connection refused'') \<and>
   snd (scrape_website (page_env 200 [] [] \<lparr>requests_get := \<lambda>u. Inl (ustr ''Connection refused'')\<rparr>) (ustr ''http://a'')) =
     ustr ''ERROR: Connection refused'' \<and>
   requests_get (page_env 503 [] []) (ustr ''http://a'') =
     Inr \<lparr>status_code = 503, reason = ustr ''-'', url = ustr ''http://a'', resp_text = []\<rparr> \<and>
   snd (scrape_website (page_env 503 [] []) (ustr ''http://a'')) =
     ustr ''ERROR: 503 Server Error: - for url: http://a'' \<and>
   startswith (snd (scrape_website (page_env 503 [] []) (ustr ''http://a''))) (ustr ''ERROR:'')"
proof -
  let ?down = "page_env 200 [] [] \<lparr>requests_get := \<lambda>u. Inl (ustr ''Connection refused'')\<rparr>"
  let ?r = "\<lparr>status_code = 503, reason = ustr ''-'', url = ustr ''http://a'', resp_text = []\<rparr>"
  have g1: "requests_get ?down (ustr ''http://a'') = Inl (ustr ''Connection refused'')"
    by simp
  have g2: "requests_get (page_env 503 [] []) (ustr ''http://a'') = Inr ?r"
    by (simp add: page_env_def)
  have n: "str_nat 503 = ustr ''503''"
    by (simp add: str_nat.simps ustr_def)
  show ?thesis
    using scrape_website_reports_errors[of ?down "ustr ''http://a''" "ustr ''Connection refused''" ?r]
      scrape_website_reports_errors[of "page_env 503 [] []" "ustr ''http://a''" "[]" ?r] g1 g2 n
    by (simp add: ustr_def startswith_def)
qed

text \<open>
  A page whose script holds the same text as a visible paragraph: the text of the
  script block stands in the output.
\<close>

theorem script_text_counterexample:
  "block_strings [ustr ''script'', ustr ''style'']
     [Tag (ustr ''script'') [NavigableString (ustr ''Hello'')], Tag (ustr ''p'') [NavigableString (ustr ''Hello'')]] = [ustr ''Hello''] \<and>
   snd (scrape_website (page_env 200 (ustr ''<script>Hello</script><p>Hello</p>'')
     [Tag (ustr ''script'') [NavigableString (ustr ''Hello'')], Tag (ustr ''p'') [NavigableString (ustr ''Hello'')]]) (ustr ''http://a'')) = ustr ''Hello'' \<and>
   contains (ustr ''Hello'') (ustr ''Hello'')"
  by (simp add: scrape_website_def page_env_def raise_for_status_def visible_text_def ustr_def
      splitlines_def split_def strip_def is_space_def is_linebreak_def startswith_def)

text \<open>
  C5, amended.  A successful run returns what the page without its script and style
  elements yields, and that page holds no string of a script or style block: the text
  inside those blocks takes no part in the output.
\<close>

theorem script_and_style_text_is_left_out:
  assumes "requests_get env u = Inr r" and "raise_for_status r = None"
    and "html_parser env (resp_text r) = Inr soup"
  shows "snd (scrape_website env u) = visible_text (extract_tags [ustr ''script'', ustr ''style''] soup) \<and>
         block_strings [ustr ''script'', ustr ''style'']
           (extract_tags [ustr ''script'', ustr ''style''] soup) = []"
  using assms
  by (simp add: scrape_website_success visible_text_extract_tags block_strings_extract_tags)

theorem script_and_style_text_is_left_out_witness:
  "requests_get (page_env 200 (ustr ''<script>Hello</script><p>Hello</p>'')
       [Tag (ustr ''script'') [NavigableString (ustr ''Hello'')], Tag (ustr ''p'') [NavigableString (ustr ''Hello'')]])
     (ustr ''http://a'') =
     Inr \<lparr>status_code = 200, reason = ustr ''-'', url = ustr ''http://a'',
          resp_text = ustr ''<script>Hello</script><p>Hello</p>''\<rparr> \<and>
   raise_for_status \<lparr>status_code = 200, reason = ustr ''-'', url = ustr ''http://a'',
          resp_text = ustr ''<script>Hello</script><p>Hello</p>''\<rparr> = None \<and>
   extract_tags [ustr ''script'', ustr ''style'']
     [Tag (ustr ''script'') [NavigableString (ustr ''Hello'')], Tag (ustr ''p'') [NavigableString (ustr ''Hello'')]] =
     [Tag (ustr ''p'') [NavigableString (ustr ''Hello'')]] \<and>
   snd (scrape_website (page_env 200 (ustr ''<script>Hello</script><p>Hello</p>'')
       [Tag (ustr ''script'') [NavigableString (ustr ''Hello'')], Tag (ustr ''p'') [NavigableString (ustr ''Hello'')]])
     (ustr ''http://a'')) = visible_text [Tag (ustr ''p'') [NavigableString (ustr ''Hello'')]] \<and>
   block_strings [ustr ''script'', ustr ''style''] [Tag (ustr ''p'') [NavigableString (ustr ''Hello'')]] = []"
proof -
  let ?markup = "ustr ''<script>Hello</script><p>Hello</p>''"
  let ?soup = "[Tag (ustr ''script'') [NavigableString (ustr ''Hello'')], Tag (ustr ''p'') [NavigableString (ustr ''Hello'')]]"
  let ?r = "\<lparr>status_code = 200, reason = ustr ''-'', url = ustr ''http://a'', resp_text = ?markup\<rparr>"
  have h1: "requests_get (page_env 200 ?markup ?soup) (ustr ''http://a'') = Inr ?r"
    by (simp add: page_env_def)
  have h2: "raise_for_status ?r = None"
    by (simp add: raise_for_status_def)
  have h3: "html_parser (page_env 200 ?markup ?soup) (resp_text ?r) = Inr ?soup"
    by (simp add: page_env_def)
  have e: "extract_tags [ustr ''script'', ustr ''style''] ?soup = [Tag (ustr ''p'') [NavigableString (ustr ''Hello'')]]"
    by (simp add: ustr_def)
  from script_and_style_text_is_left_out[OF h1 h2 h3] h1 h2 e show ?thesis
    by simp
qed

text \<open>
  C6.  After a successful extraction no line of the returned text is empty or made of
  whitespace only, whether the lines are those of \<^verbatim>\<open>splitlines()\<close> or, for a non-empty
  text, the pieces of \<^verbatim>\<open>split("\n")\<close>.  (The empty text has no line.)
\<close>

theorem extraction_has_no_blank_line:
  assumes "requests_get env u = Inr r" and "raise_for_status r = None"
    and "html_parser env (resp_text r) = Inr soup"
  shows "list_all (\<lambda>l. l \<noteq> [] \<and> \<not> list_all is_space l) (splitlines (snd (scrape_website env u))) \<and>
         (snd (scrape_website env u) \<noteq> [] \<longrightarrow>
            list_all (\<lambda>l. l \<noteq> [] \<and> \<not> list_all is_space l) (split (snd (scrape_website env u)) [10]))"
  using visible_text_lines[of soup] scrape_website_success[OF assms] by simp

theorem extraction_has_no_blank_line_witness:
  "requests_get (page_env 200 (ustr ''<p>  Hello   World \<newline>\<newline> x </p>'')
       [Tag (ustr ''p'') [NavigableString (ustr ''  Hello   World \<newline>\<newline> x '')]])
     (ustr ''http://a'') =
     Inr \<lparr>status_code = 200, reason = ustr ''-'', url = ustr ''http://a'',
          resp_text = ustr ''<p>  Hello   World \<newline>\<newline> x </p>''\<rparr> \<and>
   raise_for_status \<lparr>status_code = 200, reason = ustr ''-'', url = ustr ''http://a'',
          resp_text = ustr ''<p>  Hello   World \<newline>\<newline> x </p>''\<rparr> = None \<and>
   snd (scrape_website (page_env 200 (ustr ''<p>  Hello   World \<newline>\<newline> x </p>'')
       [Tag (ustr ''p'') [NavigableString (ustr ''  Hello   World \<newline>\<newline> x '')]])
     (ustr ''http://a'')) = ustr ''Hello\<newline>World\<newline>x'' \<and>
   ustr ''Hello\<newline>World\<newline>x'' \<noteq> [] \<and>
   list_all (\<lambda>l. l \<noteq> [] \<and> \<not> list_all is_space l) (splitlines (ustr ''Hello\<newline>World\<newline>x'')) \<and>
   list_all (\<lambda>l. l \<noteq> [] \<and> \<not> list_all is_space l) (split (ustr ''Hello\<newline>World\<newline>x'') [10])"
proof -
  let ?markup = "ustr ''<p>  Hello   World \<newline>\<newline> x </p>''"
  let ?soup = "[Tag (ustr ''p'') [NavigableString (ustr ''  Hello   World \<newline>\<newline> x '')]]"
  let ?r = "\<lparr>status_code = 200, reason = ustr ''-'', url = ustr ''http://a'', resp_text = ?markup\<rparr>"
  have h1: "requests_get (page_env 200 ?markup ?soup) (ustr ''http://a'') = Inr ?r"
    by (simp add: page_env_def)
  have h2: "raise_for_status ?r = None"
    by (simp add: raise_for_status_def)
  have h3: "html_parser (page_env 200 ?markup ?soup) (resp_text ?r) = Inr ?soup"
    by (simp add: page_env_def)
  have s: "snd (scrape_website (page_env 200 ?markup ?soup) (ustr ''http://a'')) = ustr ''Hello\<newline>World\<newline>x''"
    by (simp add: scrape_website_def page_env_def raise_for_status_def visible_text_def ustr_def
      splitlines_def split_def strip_def is_space_def is_linebreak_def startswith_def)
  have ne: "ustr ''Hello\<newline>World\<newline>x'' \<noteq> []"
    by (simp add: ustr_def)
  from extraction_has_no_blank_line[OF h1 h2 h3] h1 h2 ne show ?thesis
    unfolding s by simp
qed

section \<open>The Verifier's steps\<close>

lemma find_first: "P m \<Longrightarrow> \<forall>x\<in>set xs. \<not> P x \<Longrightarrow> find P (xs @ m # ys) = Some m"
  by (induction xs) auto

lemma find_none: "\<forall>x\<in>set xs. \<not> P x \<Longrightarrow> find P xs = None"
  by (induction xs) auto

text \<open>
  C7.  For a catalog that was listed, with \<open>valid\<close> its models that support
  \<^verbatim>\<open>generateContent\<close> in catalog order: the selection is the first of them with
  \<^verbatim>\<open>flash\<close> in its lower-cased name; if there is none, the first with \<^verbatim>\<open>pro\<close>; if there
  is none either, the first of them; and it returns no model exactly when \<open>valid\<close> is
  empty.
\<close>

theorem get_best_model_order:
  assumes "list_models env = Inr models"
    and "valid = filter (\<lambda>m. ustr ''generateContent'' \<in> set (supported_generation_methods m)) models"
  shows "(valid = xs @ m # ys \<and> contains (lower env (name m)) (ustr ''flash'') \<and>
          (\<forall>x\<in>set xs. \<not> contains (lower env (name x)) (ustr ''flash'')) \<longrightarrow>
            fst (get_best_model env) = Some (name m)) \<and>
         (valid = xs @ m # ys \<and> (\<forall>x\<in>set valid. \<not> contains (lower env (name x)) (ustr ''flash'')) \<and>
          contains (lower env (name m)) (ustr ''pro'') \<and>
          (\<forall>x\<in>set xs. \<not> contains (lower env (name x)) (ustr ''pro'')) \<longrightarrow>
            fst (get_best_model env) = Some (name m)) \<and>
         (valid = m # ys \<and> (\<forall>x\<in>set valid. \<not> contains (lower env (name x)) (ustr ''flash'') \<and>
                                         \<not> contains (lower env (name x)) (ustr ''pro'')) \<longrightarrow>
            fst (get_best_model env) = Some (name m)) \<and>
         (fst (get_best_model env) = None \<longleftrightarrow> valid = [])"
proof (intro conjI impI)
  assume a: "valid = xs @ m # ys \<and> contains (lower env (name m)) (ustr ''flash'') \<and>
          (\<forall>x\<in>set xs. \<not> contains (lower env (name x)) (ustr ''flash''))"
  from a have v: "valid = xs @ m # ys" by (rule conjunct1)
  from a have "find (\<lambda>m. contains (lower env (name m)) (ustr ''flash'')) (xs @ m # ys) = Some m"
    by (intro find_first) simp_all
  then have "find (\<lambda>m. contains (lower env (name m)) (ustr ''flash'')) valid = Some m"
    by (simp only: v)
  moreover have "valid \<noteq> []" using v by simp
  ultimately show "fst (get_best_model env) = Some (name m)"
    using assms by (simp add: get_best_model_def)
next
  assume a: "valid = xs @ m # ys \<and> (\<forall>x\<in>set valid. \<not> contains (lower env (name x)) (ustr ''flash'')) \<and>
          contains (lower env (name m)) (ustr ''pro'') \<and>
          (\<forall>x\<in>set xs. \<not> contains (lower env (name x)) (ustr ''pro''))"
  from a have v: "valid = xs @ m # ys" by (rule conjunct1)
  from a have "find (\<lambda>m. contains (lower env (name m)) (ustr ''flash'')) valid = None"
    by (intro find_none) simp
  moreover from a have "find (\<lambda>m. contains (lower env (name m)) (ustr ''pro'')) (xs @ m # ys) = Some m"
    by (intro find_first) simp_all
  then have "find (\<lambda>m. contains (lower env (name m)) (ustr ''pro'')) valid = Some m"
    by (simp only: v)
  moreover have "valid \<noteq> []" using v by simp
  ultimately show "fst (get_best_model env) = Some (name m)"
    using assms by (simp add: get_best_model_def)
next
  assume a: "valid = m # ys \<and> (\<forall>x\<in>set valid. \<not> contains (lower env (name x)) (ustr ''flash'') \<and>
                                         \<not> contains (lower env (name x)) (ustr ''pro''))"
  from a have v: "valid = m # ys" by (rule conjunct1)
  from a have "find (\<lambda>m. contains (lower env (name m)) (ustr ''flash'')) valid = None"
    by (intro find_none) simp
  moreover from a have "find (\<lambda>m. contains (lower env (name m)) (ustr ''pro'')) valid = None"
    by (intro find_none) simp
  moreover have "valid \<noteq> []" "hd valid = m" using v by simp_all
  ultimately show "fst (get_best_model env) = Some (name m)"
    using assms by (simp add: get_best_model_def)
next
  show "(fst (get_best_model env) = None) = (valid = [])"
    using assms by (simp add: get_best_model_def Let_def split: option.splits)
qed

theorem get_best_model_order_witness:
  "fst (get_best_model (page_env 200 [] []
      \<lparr>list_models := Inr
         [\<lparr>name = ustr ''models/embedding-flash'', supported_generation_methods = [ustr ''embedContent'']\<rparr>,
          \<lparr>name = ustr ''models/gemini-pro'', supported_generation_methods = [ustr ''generateContent'']\<rparr>,
          \<lparr>name = ustr ''models/Gemini-FLASH'', supported_generation_methods = [ustr ''generateContent'']\<rparr>]\<rparr>)) =
     Some (ustr ''models/Gemini-FLASH'') \<and>
   fst (get_best_model (page_env 200 [] []
      \<lparr>list_models := Inr
         [\<lparr>name = ustr ''models/aqa'', supported_generation_methods = [ustr ''generateContent'']\<rparr>,
          \<lparr>name = ustr ''models/gemini-pro'', supported_generation_methods = [ustr ''generateContent'']\<rparr>]\<rparr>)) =
     Some (ustr ''models/gemini-pro'') \<and>
   fst (get_best_model (page_env 200 [] []
      \<lparr>list_models := Inr
         [\<lparr>name = ustr ''models/embedding'', supported_generation_methods = [ustr ''embedContent'']\<rparr>,
          \<lparr>name = ustr ''models/aqa'', supported_generation_methods = [ustr ''generateContent'']\<rparr>,
          \<lparr>name = ustr ''models/bison'', supported_generation_methods = [ustr ''generateContent'']\<rparr>]\<rparr>)) =
     Some (ustr ''models/aqa'') \<and>
   fst (get_best_model (page_env 200 [] []
      \<lparr>list_models := Inr
         [\<lparr>name = ustr ''models/embedding-flash'', supported_generation_methods = [ustr ''embedContent'']\<rparr>]\<rparr>)) =
     None"
proof -
  let ?emb = "\<lparr>name = ustr ''models/embedding-flash'', supported_generation_methods = [ustr ''embedContent'']\<rparr>"
  let ?emb2 = "\<lparr>name = ustr ''models/embedding'', supported_generation_methods = [ustr ''embedContent'']\<rparr>"
  let ?pro = "\<lparr>name = ustr ''models/gemini-pro'', supported_generation_methods = [ustr ''generateContent'']\<rparr>"
  let ?flash = "\<lparr>name = ustr ''models/Gemini-FLASH'', supported_generation_methods = [ustr ''generateContent'']\<rparr>"
  let ?aqa = "\<lparr>name = ustr ''models/aqa'', supported_generation_methods = [ustr ''generateContent'']\<rparr>"
  let ?bison = "\<lparr>name = ustr ''models/bison'', supported_generation_methods = [ustr ''generateContent'']\<rparr>"
  let ?e1 = "page_env 200 [] [] \<lparr>list_models := Inr [?emb, ?pro, ?flash]\<rparr>"
  let ?e2 = "page_env 200 [] [] \<lparr>list_models := Inr [?aqa, ?pro]\<rparr>"
  let ?e3 = "page_env 200 [] [] \<lparr>list_models := Inr [?emb2, ?aqa, ?bison]\<rparr>"
  let ?e4 = "page_env 200 [] [] \<lparr>list_models := Inr [?emb]\<rparr>"
  have 1: "fst (get_best_model ?e1) = Some (name ?flash)"
    using get_best_model_order[of ?e1 "[?emb, ?pro, ?flash]" "[?pro, ?flash]" "[?pro]" ?flash "[]"]
    by (simp add: page_env_def ustr_def lower_def startswith_def upt_rec)
  have 2: "fst (get_best_model ?e2) = Some (name ?pro)"
    using get_best_model_order[of ?e2 "[?aqa, ?pro]" "[?aqa, ?pro]" "[?aqa]" ?pro "[]"]
    by (simp add: page_env_def ustr_def lower_def startswith_def upt_rec)
  have 3: "fst (get_best_model ?e3) = Some (name ?aqa)"
    using get_best_model_order[of ?e3 "[?emb2, ?aqa, ?bison]" "[?aqa, ?bison]" "[]" ?aqa "[?bison]"]
    by (simp add: page_env_def ustr_def lower_def startswith_def upt_rec)
  have 4: "fst (get_best_model ?e4) = None"
    using get_best_model_order[of ?e4 "[?emb]" "[]" "[]" ?emb "[]"]
    by (simp add: page_env_def ustr_def)
  from 1 2 3 4 show ?thesis by simp
qed

text \<open>
  C8.  The prompt is the fixed head, the first 30,000 characters of the source text
  (all of it when it has no more), the fixed middle, the whole ad script and the fixed
  tail; and this is the prompt of the generation call whenever a model was selected.
\<close>

theorem prompt_embeds_source_and_script:
  "build_prompt site_text ad_script =
     prompt_head @ take 30000 site_text @ prompt_mid @ ad_script @ prompt_tail \<and>
   length (take 30000 site_text) = min 30000 (length site_text) \<and>
   (length site_text \<le> 30000 \<longrightarrow>
      build_prompt site_text ad_script =
        prompt_head @ site_text @ prompt_mid @ ad_script @ prompt_tail) \<and>
   (get_best_model env = (Some model_name, debug) \<and> model_name \<noteq> [] \<longrightarrow>
      GenerateContent model_name
        (prompt_head @ take 30000 site_text @ prompt_mid @ ad_script @ prompt_tail)
      \<in> set (analyze env gemini_key site_text ad_script))"
  by (auto simp: build_prompt_def analyze_def min_def)

theorem prompt_embeds_source_and_script_witness:
  "build_prompt (replicate 30001 97) (ustr ''Best coffee'') =
     prompt_head @ replicate 30000 97 @ prompt_mid @ ustr ''Best coffee'' @ prompt_tail \<and>
   length (ustr ''Organic coffee'') \<le> 30000 \<and>
   build_prompt (ustr ''Organic coffee'') (ustr ''Best coffee'') =
     prompt_head @ ustr ''Organic coffee'' @ prompt_mid @ ustr ''Best coffee'' @ prompt_tail \<and>
   get_best_model (page_env 200 [] []
      \<lparr>list_models := Inr [\<lparr>name = ustr ''flash'', supported_generation_methods = [ustr ''generateContent'']\<rparr>]\<rparr>) =
     (Some (ustr ''flash''), DebugNames [ustr ''flash'']) \<and>
   ustr ''flash'' \<noteq> [] \<and>
   GenerateContent (ustr ''flash'')
     (prompt_head @ ustr ''Organic coffee'' @ prompt_mid @ ustr ''Best coffee'' @ prompt_tail)
   \<in> set (analyze (page_env 200 [] []
      \<lparr>list_models := Inr [\<lparr>name = ustr ''flash'', supported_generation_methods = [ustr ''generateContent'']\<rparr>]\<rparr>)
      (ustr ''key'') (ustr ''Organic coffee'') (ustr ''Best coffee''))"
proof -
  let ?env = "page_env 200 [] []
      \<lparr>list_models := Inr [\<lparr>name = ustr ''flash'', supported_generation_methods = [ustr ''generateContent'']\<rparr>]\<rparr>"
  have g: "get_best_model ?env = (Some (ustr ''flash''), DebugNames [ustr ''flash''])"
    by (simp add: get_best_model_def page_env_def ustr_def lower_def startswith_def upt_rec)
  have n: "ustr ''flash'' \<noteq> []" and l: "length (ustr ''Organic coffee'') \<le> 30000"
    by (simp_all add: ustr_def)
  have t: "take 30000 (replicate 30001 (97::nat)) = replicate 30000 97"
    by simp
  show ?thesis
    using prompt_embeds_source_and_script[of "replicate 30001 97" "ustr ''Best coffee''" ?env "ustr ''flash''"
        "DebugNames [ustr ''flash'']" "ustr ''key''"]
      prompt_embeds_source_and_script[of "ustr ''Organic coffee''" "ustr ''Best coffee''" ?env "ustr ''flash''"
        "DebugNames [ustr ''flash'']" "ustr ''key''"] g n l t
    by simp
qed

lemma dict_get_with_defaults:
  "(k, v) \<in> set reply_defaults \<Longrightarrow> dict_get (with_defaults d) k v = dict_get d k v"
  by (cases "map_of d k")
     (auto simp: dict_get_def with_defaults_def reply_defaults_def map_add_def ustr_def
           split: option.splits)

lemma show_results_with_defaults:
  "show_results env (JObj (with_defaults d)) = show_results env (JObj d)"
proof -
  have "dict_get (with_defaults d) (ustr ''score'') (JInt 0) = dict_get d (ustr ''score'') (JInt 0)"
    "dict_get (with_defaults d) (ustr ''verdict'') (JStr (ustr ''FAIL'')) = dict_get d (ustr ''verdict'') (JStr (ustr ''FAIL''))"
    "dict_get (with_defaults d) (ustr ''hallucinations'') (JArr []) = dict_get d (ustr ''hallucinations'') (JArr [])"
    "dict_get (with_defaults d) (ustr ''tone_consistency'') (JStr (ustr ''N/A'')) = dict_get d (ustr ''tone_consistency'') (JStr (ustr ''N/A''))"
    by (rule dict_get_with_defaults, simp add: reply_defaults_def)+
  then show ?thesis
    by (simp only: show_results_def json.case)
qed

lemma show_results_succeeds:
  assumes "present_fields_usable d"
  shows "snd (show_results env (JObj d)) = None"
proof -
  have m: "metric_accepts (dict_get d (ustr ''score'') (JInt 0))"
    using assms by (auto simp: present_fields_usable_def dict_get_def split: option.splits)
  obtain v where v: "dict_get d (ustr ''verdict'') (JStr (ustr ''FAIL'')) = JStr v"
    using assms
    by (cases "map_of d (ustr ''verdict'')"; cases "the (map_of d (ustr ''verdict''))")
       (auto simp: present_fields_usable_def dict_get_def ustr_def)
  have h: "truthy (dict_get d (ustr ''hallucinations'') (JArr [])) \<Longrightarrow>
           iterate (dict_get d (ustr ''hallucinations'') (JArr [])) \<noteq> None"
    using assms by (auto simp: present_fields_usable_def dict_get_def split: option.splits)
  show ?thesis
    using m v h by (auto simp: show_results_def Let_def split: option.splits)
qed

lemma show_results_events:
  "StErrorAnalysisFailed e \<notin> set (fst (show_results env result))"
  by (auto simp: show_results_def Let_def split: json.splits option.splits)

lemma show_results_no_items:
  "map_of d (ustr ''hallucinations'') = None \<Longrightarrow> StWriteItem h \<notin> set (fst (show_results env (JObj d)))"
  by (auto simp: show_results_def Let_def dict_get_def split: json.splits option.splits)

text \<open>
  C3.  For a reply that parses to an object whose present fields are usable: a lookup
  of an omitted field gives its default (score 0, verdict \<^verbatim>\<open>FAIL\<close>, hallucinations the
  empty list, tone_consistency \<^verbatim>\<open>N/A\<close>); the display is that of the object with the
  defaults filled in; it ends without an exception, so the request makes the four
  Verifier calls and then shows the result, with no analysis failure; and a reply
  without hallucinations has the empty list there and writes no hallucination item.
\<close>

theorem omitted_fields_take_defaults:
  assumes "get_best_model env = (Some model_name, debug)" and "model_name \<noteq> []"
    and "generate_content env model_name (build_prompt site_text ad_script) = Inr (Inr reply)"
    and "json_loads (clean_response reply) = Some (JObj d)"
    and "present_fields_usable d"
  shows "(\<forall>k v. (k, v) \<in> set reply_defaults \<and> map_of d k = None \<longrightarrow> dict_get d k v = v) \<and>
         show_results env (JObj d) = show_results env (JObj (with_defaults d)) \<and>
         snd (show_results env (JObj d)) = None \<and>
         analyze env gemini_key site_text ad_script =
           [Configure gemini_key, ListModels,
            StInfo (ustr ''Using model: **'' @ model_name @ ustr ''**''),
            GenerateContent model_name (build_prompt site_text ad_script)] @
           fst (show_results env (JObj (with_defaults d))) \<and>
         (\<forall>e. StErrorAnalysisFailed e \<notin> set (analyze env gemini_key site_text ad_script)) \<and>
         (map_of d (ustr ''hallucinations'') = None \<longrightarrow>
            dict_get d (ustr ''hallucinations'') (JArr []) = JArr [] \<and>
            (\<forall>h. StWriteItem h \<notin> set (analyze env gemini_key site_text ad_script)))"
proof -
  have ok: "snd (show_results env (JObj d)) = None"
    using assms(5) by (rule show_results_succeeds)
  have an: "analyze env gemini_key site_text ad_script =
           [Configure gemini_key, ListModels,
            StInfo (ustr ''Using model: **'' @ model_name @ ustr ''**''),
            GenerateContent model_name (build_prompt site_text ad_script)] @
           fst (show_results env (JObj d))"
    using assms(1-4) ok
    by (cases "show_results env (JObj d)") (simp add: analyze_def)
  have 1: "\<forall>k v. (k, v) \<in> set reply_defaults \<and> map_of d k = None \<longrightarrow> dict_get d k v = v"
    by (simp add: dict_get_def)
  have 5: "\<forall>e. StErrorAnalysisFailed e \<notin> set (analyze env gemini_key site_text ad_script)"
    unfolding an using show_results_events[of _ env "JObj d"] by simp
  have 6: "map_of d (ustr ''hallucinations'') = None \<longrightarrow>
            dict_get d (ustr ''hallucinations'') (JArr []) = JArr [] \<and>
            (\<forall>h. StWriteItem h \<notin> set (analyze env gemini_key site_text ad_script))"
    unfolding an using show_results_no_items[of d _ env] by (simp add: dict_get_def)
  show ?thesis
    using 1 ok an 5 6 by (simp only: show_results_with_defaults simp_thms)
qed

theorem omitted_fields_take_defaults_witness:
  "get_best_model (page_env 200 [] []
      \<lparr>list_models := Inr [\<lparr>name = ustr ''flash'', supported_generation_methods = [ustr ''generateContent'']\<rparr>],
       generate_content := \<lambda>m p. Inr (Inr (ustr ''{'' @ [34] @ ustr ''score'' @ [34] @ ustr '':9}''))\<rparr>) =
     (Some (ustr ''flash''), DebugNames [ustr ''flash'']) \<and>
   ustr ''flash'' \<noteq> [] \<and>
   json_loads (clean_response (ustr ''{'' @ [34] @ ustr ''score'' @ [34] @ ustr '':9}'')) =
     Some (JObj [(ustr ''score'', JInt 9)]) \<and>
   present_fields_usable [(ustr ''score'', JInt 9)] \<and>
   with_defaults [(ustr ''score'', JInt 9)] =
     [(ustr ''score'', JInt 9), (ustr ''verdict'', JStr (ustr ''FAIL'')),
      (ustr ''hallucinations'', JArr []), (ustr ''tone_consistency'', JStr (ustr ''N/A''))] \<and>
   analyze (page_env 200 [] []
      \<lparr>list_models := Inr [\<lparr>name = ustr ''flash'', supported_generation_methods = [ustr ''generateContent'']\<rparr>],
       generate_content := \<lambda>m p. Inr (Inr (ustr ''{'' @ [34] @ ustr ''score'' @ [34] @ ustr '':9}''))\<rparr>)
     (ustr ''key'') (ustr ''Organic coffee'') (ustr ''Best coffee'') =
     [Configure (ustr ''key''), ListModels, StInfo (ustr ''Using model: **flash**''),
      GenerateContent (ustr ''flash'') (build_prompt (ustr ''Organic coffee'') (ustr ''Best coffee'')),
      StMetric (ustr ''Quality Score'') (JInt 9), StError (ustr ''Verdict: FAIL''),
      StMarkdown (ustr ''### Tone Analysis''), StWrite (JStr (ustr ''N/A''))]"
proof -
  let ?reply = "ustr ''{'' @ [34] @ ustr ''score'' @ [34] @ ustr '':9}''"
  let ?env = "page_env 200 [] []
      \<lparr>list_models := Inr [\<lparr>name = ustr ''flash'', supported_generation_methods = [ustr ''generateContent'']\<rparr>],
       generate_content := \<lambda>m p. Inr (Inr ?reply)\<rparr>"
  let ?d = "[(ustr ''score'', JInt 9)]"
  have g: "get_best_model ?env = (Some (ustr ''flash''), DebugNames [ustr ''flash''])"
    by (simp add: get_best_model_def page_env_def ustr_def lower_def startswith_def upt_rec)
  have n: "ustr ''flash'' \<noteq> []"
    by (simp add: ustr_def)
  have r: "generate_content ?env (ustr ''flash'') (build_prompt (ustr ''Organic coffee'') (ustr ''Best coffee'')) =
             Inr (Inr ?reply)"
    by simp
  have c: "clean_response ?reply = ?reply"
    by (simp add: clean_response_def ustr_def strip_def is_space_def startswith_def)
  have j: "json_loads (clean_response ?reply) = Some (JObj ?d)"
    unfolding c
    by (simp add: json_loads_def ustr_def startswith_def scanstring_def parse_step_def
        begin_value_def begin_member_def close_object_def match_number_def is_digit_def
        int_of_digits_def)
  have u: "present_fields_usable ?d"
    by (simp add: present_fields_usable_def ustr_def)
  have w: "with_defaults ?d =
     [(ustr ''score'', JInt 9), (ustr ''verdict'', JStr (ustr ''FAIL'')),
      (ustr ''hallucinations'', JArr []), (ustr ''tone_consistency'', JStr (ustr ''N/A''))]"
    by (simp add: with_defaults_def reply_defaults_def ustr_def)
  have s: "fst (show_results ?env (JObj (with_defaults ?d))) =
     [StMetric (ustr ''Quality Score'') (JInt 9), StError (ustr ''Verdict: FAIL''),
      StMarkdown (ustr ''### Tone Analysis''), StWrite (JStr (ustr ''N/A''))]"
    unfolding w by (simp add: show_results_def dict_get_def upper_def ustr_def)
  from omitted_fields_take_defaults[OF g n r j u, of "ustr ''key''"] g n j u w s
  show ?thesis by (simp add: ustr_def)
qed

lemma strip_id:
  assumes "s \<noteq> []" and "\<not> is_space (hd s)" and "\<not> is_space (last s)"
  shows "strip s = s"
proof -
  have "dropWhile is_space s = s"
    using assms(1,2) by (cases s) simp_all
  moreover have "dropWhile is_space (rev s) = rev s"
    using assms(1,3) by (cases "rev s") (simp_all add: last_rev[symmetric] hd_rev)
  ultimately show ?thesis by (simp add: strip_def)
qed

lemma strip_padded:
  assumes "s \<noteq> []" and "\<not> is_space (hd s)" and "\<not> is_space (last s)"
    and "list_all is_space pre" and "list_all is_space post"
  shows "strip (pre @ s @ post) = s"
proof -
  have 1: "dropWhile is_space (pre @ s @ post) = s @ post"
    using assms(1,2,4) by (cases s) (simp_all add: dropWhile_append list_all_iff)
  have "dropWhile is_space (rev post @ rev s) = rev s"
    using assms(1,3,5) by (cases "rev s") (simp_all add: dropWhile_append list_all_iff hd_rev)
  then show ?thesis by (simp add: strip_def 1)
qed

lemma split_from_skip:
  "96 \<notin> set x \<Longrightarrow> split_from [96, 96, 96] cur (x @ rest) = split_from [96, 96, 96] (cur @ x) rest"
  by (induction x arbitrary: cur) (auto simp: startswith_def)

lemma split_from_no_fence:
  "\<not> contains s [96, 96, 96] \<Longrightarrow> s = [] \<or> last s \<noteq> 96 \<Longrightarrow>
   split_from [96, 96, 96] cur (s @ rest) = split_from [96, 96, 96] (cur @ s) rest"
proof (induction s arbitrary: cur)
  case Nil
  then show ?case by simp
next
  case (Cons c s)
  have no: "\<not> startswith (c # s @ rest) [96, 96, 96]"
  proof (cases s)
    case Nil
    then show ?thesis using Cons.prems by (simp add: startswith_def)
  next
    case (Cons d s')
    note s = Cons
    show ?thesis
    proof (cases s')
      case Nil
      then show ?thesis using s Cons.prems by (simp add: startswith_def)
    next
      case (Cons e s'')
      then show ?thesis using s Cons.prems by (simp add: startswith_def)
    qed
  qed
  have "\<not> contains s [96, 96, 96]" and "s = [] \<or> last s \<noteq> 96"
    using Cons.prems by (auto split: if_splits)
  then have "split_from [96, 96, 96] (cur @ [c]) (s @ rest) = split_from [96, 96, 96] ((cur @ [c]) @ s) rest"
    by (rule Cons.IH)
  then show ?case using no by simp
qed

lemma space_not_backtick: "list_all is_space x \<Longrightarrow> 96 \<notin> set x"
  by (auto simp: list_all_iff is_space_def)

text \<open>
  A reply \<open>s\<close> that starts and ends with a character other than whitespace, does not end
  with a backtick and holds no run of three backticks (as the text of a JSON object
  without such a run in its strings does) is what the cleaning returns, with or
  without a fence labelled \<^verbatim>\<open>json\<close> and whitespace around it.
\<close>

lemma fenced_reply_without_backticks:
  assumes "s \<noteq> []" and "\<not> is_space (hd s)" and "\<not> is_space (last s)" and "last s \<noteq> 96"
    and "\<not> contains s [96, 96, 96]"
    and "list_all is_space pre" and "list_all is_space post"
  shows "clean_response ([96, 96, 96] @ ustr ''json'' @ pre @ s @ post @ [96, 96, 96]) = s \<and>
         clean_response s = s"
proof -
  let ?F = "[96, 96, 96] :: ustring"
  let ?fenced = "?F @ ustr ''json'' @ pre @ s @ post @ ?F"
  have st: "strip ?fenced = ?fenced"
    by (rule strip_id) (simp_all add: is_space_def)
  have "split_from ?F [] (ustr ''json'' @ pre @ s @ post @ ?F) =
        split_from ?F (ustr ''json'') (pre @ s @ post @ ?F)"
    using split_from_skip[of "ustr ''json''" "[]" "pre @ s @ post @ ?F"] by (simp add: ustr_def)
  also have "\<dots> = split_from ?F (ustr ''json'' @ pre) (s @ post @ ?F)"
    using split_from_skip[OF space_not_backtick[OF assms(6)]] by simp
  also have "\<dots> = split_from ?F ((ustr ''json'' @ pre) @ s) (post @ ?F)"
    using assms(4,5) by (intro split_from_no_fence) simp_all
  also have "\<dots> = split_from ?F (((ustr ''json'' @ pre) @ s) @ post) ?F"
    using split_from_skip[OF space_not_backtick[OF assms(7)], of "(ustr ''json'' @ pre) @ s" ?F] by simp
  also have "\<dots> = [ustr ''json'' @ pre @ s @ post, []]"
    by (simp add: startswith_def)
  finally have body: "split_from ?F [] (ustr ''json'' @ pre @ s @ post @ ?F) =
        [ustr ''json'' @ pre @ s @ post, []]" .
  have sp: "split ?fenced ?F = [[], ustr ''json'' @ pre @ s @ post, []]"
    using body by (simp add: split_def startswith_def)
  have sw: "startswith ?fenced ?F"
    by (simp add: startswith_def)
  have j: "startswith (ustr ''json'' @ pre @ s @ post) (ustr ''json'')"
    by (simp add: startswith_def)
  have d: "drop 4 (ustr ''json'' @ pre @ s @ post) = pre @ s @ post"
    by (simp add: ustr_def)
  have 1: "clean_response ?fenced = s"
    unfolding clean_response_def Let_def st
    using sw sp j d strip_padded[OF assms(1,2,3,6,7)] by simp
  have ns: "\<not> startswith s ?F"
    using assms(1,5) by (cases s) auto
  have 2: "clean_response s = s"
    unfolding clean_response_def Let_def
    using strip_id[OF assms(1,2,3)] ns by simp
  from 1 2 show ?thesis ..
qed

text \<open>
  C2, at a reply whose JSON holds three backticks in a string.  With the fence around
  it the text handed to the decoder ends at the inner backticks and does not parse;
  without the fence the same JSON parses to its object.
\<close>

theorem fenced_reply_with_backticks:
  "clean_response ([96, 96, 96] @ ustr ''json'' @ [10] @
      ustr ''{'' @ [34, 97, 34] @ ustr '':'' @ [34, 96, 96, 96, 34] @ ustr ''}'' @ [10] @ [96, 96, 96]) =
     ustr ''{'' @ [34, 97, 34] @ ustr '':'' @ [34] \<and>
   json_loads (clean_response ([96, 96, 96] @ ustr ''json'' @ [10] @
      ustr ''{'' @ [34, 97, 34] @ ustr '':'' @ [34, 96, 96, 96, 34] @ ustr ''}'' @ [10] @ [96, 96, 96])) = None \<and>
   json_loads (clean_response
      (ustr ''{'' @ [34, 97, 34] @ ustr '':'' @ [34, 96, 96, 96, 34] @ ustr ''}'')) =
     Some (JObj [([97], JStr [96, 96, 96])])"
proof -
  have c1: "clean_response ([96, 96, 96] @ ustr ''json'' @ [10] @
      ustr ''{'' @ [34, 97, 34] @ ustr '':'' @ [34, 96, 96, 96, 34] @ ustr ''}'' @ [10] @ [96, 96, 96]) =
     ustr ''{'' @ [34, 97, 34] @ ustr '':'' @ [34]"
    by (simp add: clean_response_def ustr_def strip_def is_space_def startswith_def split_def)
  have c2: "clean_response (ustr ''{'' @ [34, 97, 34] @ ustr '':'' @ [34, 96, 96, 96, 34] @ ustr ''}'') =
     ustr ''{'' @ [34, 97, 34] @ ustr '':'' @ [34, 96, 96, 96, 34] @ ustr ''}''"
    by (simp add: clean_response_def ustr_def strip_def is_space_def startswith_def split_def)
  have j1: "json_loads (ustr ''{'' @ [34, 97, 34] @ ustr '':'' @ [34]) = None"
    by (simp add: json_loads_def ustr_def startswith_def scanstring_def)
  have j2: "json_loads (ustr ''{'' @ [34, 97, 34] @ ustr '':'' @ [34, 96, 96, 96, 34] @ ustr ''}'') =
     Some (JObj [([97], JStr [96, 96, 96])])"
    by (simp add: json_loads_def ustr_def startswith_def scanstring_def parse_step_def
        begin_value_def begin_member_def close_object_def)
  show ?thesis
    unfolding c1 c2 using j1 j2 by simp
qed

end
